theory Spec2Isabelle
  imports Main "HOL-Library.Word" "HOL-Library.Sublist"
begin

section \<open>JavaScript values used by the daemon\<close>

text \<open>
  A JavaScript string is a sequence of UTF-16 code units and \<open>length\<close>, \<open>substring\<close>,
  \<open>startsWith\<close> and \<open>trim\<close> all count and compare code units. A string is therefore a
  list of 16-bit words. String literals of the source that are plain ASCII are written
  through \<open>ascii\<close>.
\<close>

type_synonym cu = "16 word"
type_synonym jsstring = "cu list"

definition ascii :: "string \<Rightarrow> jsstring" where
  "ascii s = map (\<lambda>c. of_nat (of_char c)) s"

text \<open>
  The values that end up in the two \<open>Set\<close>s of the message cache: a number produced by
  \<open>parseInt\<close> or, after a reload from JSON, \<open>null\<close>. A number is a double:
  \<open>NaN\<close>, one of the two infinities, or a finite value, which for \<open>parseInt\<close> is
  always an integer; \<open>JNum n\<close> is the finite double whose value is the integer \<open>n\<close>
  (only integers that are doubles occur, see \<open>numberOfInt\<close>). HOL equality on this
  type is the \<open>SameValueZero\<close> comparison that \<open>Set\<close> uses: \<open>NaN\<close> equals \<open>NaN\<close>,
  the two zeros are one value, and \<open>null\<close> equals only \<open>null\<close>.
\<close>

datatype jsval = JNull | JNaN | JPosInf | JNegInf | JNum int

text \<open>Truthiness of a string: only the empty string is falsy.\<close>

definition truthy :: "jsstring \<Rightarrow> bool" where
  "truthy s \<longleftrightarrow> s \<noteq> []"

text \<open>
  \<open>WhiteSpace\<close> and \<open>LineTerminator\<close> of ECMAScript, the code units that
  \<open>String.prototype.trim\<close> and the first step of \<open>parseInt\<close> strip.
\<close>

definition isWhiteSpace :: "cu \<Rightarrow> bool" where
  "isWhiteSpace c \<longleftrightarrow>
     c = 0x0009 \<or> c = 0x000A \<or> c = 0x000B \<or> c = 0x000C \<or> c = 0x000D \<or> c = 0x0020 \<or>
     c = 0x00A0 \<or> c = 0x1680 \<or> (0x2000 \<le> c \<and> c \<le> 0x200A) \<or> c = 0x2028 \<or>
     c = 0x2029 \<or> c = 0x202F \<or> c = 0x205F \<or> c = 0x3000 \<or> c = 0xFEFF"

definition trim :: "jsstring \<Rightarrow> jsstring" where
  "trim s = rev (dropWhile isWhiteSpace (rev (dropWhile isWhiteSpace s)))"

text \<open>\<open>s.substring(0, n)\<close>: a negative end is clamped to 0, an end past the string to its length.\<close>

definition substring0 :: "jsstring \<Rightarrow> int \<Rightarrow> jsstring" where
  "substring0 s n = take (nat n) s"

subsection \<open>Number.prototype.toString and parseInt(s, 10)\<close>

definition isDigit :: "cu \<Rightarrow> bool" where
  "isDigit c \<longleftrightarrow> 0x30 \<le> c \<and> c \<le> 0x39"

definition digitChar :: "nat \<Rightarrow> cu" where
  "digitChar d = of_nat (48 + d)"

fun digits :: "nat \<Rightarrow> jsstring" where
  "digits n = (if n < 10 then [digitChar n] else digits (n div 10) @ [digitChar (n mod 10)])"

declare digits.simps [simp del]

text \<open>
  \<open>ROWID.toString()\<close> of an integer row id. SQLite row ids are 64-bit, so the exponent
  notation that JavaScript switches to from \<open>10^21\<close> on never occurs. The digits are
  those of the integer, which is what JavaScript prints for a row id below \<open>2^53\<close> in
  magnitude; a larger row id reaches the program as a rounded double, for which
  JavaScript prints the shortest digits that read back as that double, and that is not
  modelled. What is proved below uses \<open>toString\<close> only as the function that makes the
  id of a row; where the digits matter the row id is assumed below \<open>2^53\<close>.
\<close>

definition toString :: "int \<Rightarrow> jsstring" where
  "toString i = (if i < 0 then 0x2D # digits (nat (- i)) else digits (nat i))"

definition digitsValue :: "jsstring \<Rightarrow> int" where
  "digitsValue z = foldl (\<lambda>a c. 10 * a + (uint c - 48)) 0 z"

text \<open>The number of binary digits of a positive integer.\<close>

function bitLength :: "int \<Rightarrow> nat" where
  "bitLength a = (if a \<le> 0 then 0 else Suc (bitLength (a div 2)))"
  by pat_completeness auto
termination
  by (relation "measure nat") auto

declare bitLength.simps [simp del]

text \<open>
  The Number value for a mathematical integer: the nearest double, ties to the even
  mantissa. Below \<open>2^53\<close> in magnitude every integer is a double. From there on the
  53 leading binary digits are kept and rounded on the rest, and a result that needs
  more than 1024 binary digits (that is, one of at least \<open>2^1024\<close>) is an infinity.
\<close>

definition numberOfInt :: "int \<Rightarrow> jsval" where
  "numberOfInt x =
     (let a = \<bar>x\<bar>
      in if a < 9007199254740992 then JNum x
         else
           (let e = bitLength a - 53;
                q = a div 2 ^ e;
                r = a mod 2 ^ e;
                q' = (if 2 * r > 2 ^ e \<or> (2 * r = 2 ^ e \<and> odd q) then q + 1 else q);
                v = q' * 2 ^ e
            in if bitLength v > 1024 then (if x < 0 then JNegInf else JPosInf)
               else JNum (if x < 0 then - v else v)))"

text \<open>
  \<open>parseInt(s, 10)\<close>: strip leading white space, read one optional sign, take the longest
  prefix of decimal digits; no digit at all gives \<open>NaN\<close>, and otherwise the result is
  the Number value for the signed integer the digits denote, so a long digit string is
  rounded and a very long one is an infinity. (For more than twenty significant digits
  ECMAScript lets an engine approximate the integer before rounding; the exact integer
  is taken here.)
\<close>

definition parseInt :: "jsstring \<Rightarrow> jsval" where
  "parseInt s =
     (let t = dropWhile isWhiteSpace s;
          neg = (case t of [] \<Rightarrow> False | c # _ \<Rightarrow> c = 0x2D);
          u = (case t of [] \<Rightarrow> [] | c # r \<Rightarrow> if c = 0x2B \<or> c = 0x2D then r else t);
          z = takeWhile isDigit u
      in if z = [] then JNaN
         else numberOfInt ((if neg then - 1 else 1) * digitsValue z))"

subsection \<open>Set, in insertion order\<close>

text \<open>
  A JavaScript \<open>Set\<close> keeps its elements in insertion order without duplicates, and
  \<open>Array.from\<close> lists them in that order.
\<close>

definition setAdd :: "'a \<Rightarrow> 'a list \<Rightarrow> 'a list" where
  "setAdd x xs = (if x \<in> set xs then xs else xs @ [x])"

definition setDelete :: "'a \<Rightarrow> 'a list \<Rightarrow> 'a list" where
  "setDelete x xs = removeAll x xs"

definition setHas :: "'a \<Rightarrow> 'a list \<Rightarrow> bool" where
  "setHas x xs \<longleftrightarrow> x \<in> set xs"

definition newSet :: "'a list \<Rightarrow> 'a list" where
  "newSet xs = foldl (\<lambda>s x. setAdd x s) [] xs"

section \<open>message-cache.ts: the persistent cache of resolved message ids\<close>

record MessageCache =
  processedIds :: "jsval list"
  failedIds :: "jsval list"

definition emptyCache :: MessageCache where
  "emptyCache = \<lparr>processedIds = [], failedIds = []\<rparr>"

text \<open>
  The cache file. Its content is represented by what \<open>JSON.parse\<close> makes of it:
  \<open>Unparsable\<close> stands for any content on which the \<open>try\<close> block of \<open>load\<close> throws,
  \<open>CacheFile p f t\<close> for an object whose \<open>processed\<close> and \<open>failed\<close> properties are the
  arrays \<open>p\<close> and \<open>f\<close> (\<open>None\<close> when the property is absent) and whose \<open>lastUpdated\<close>
  is \<open>t\<close>.
\<close>

datatype disk = NoFile | Unparsable
  | CacheFile "jsval list option" "jsval list option" jsstring

text \<open>
  What \<open>JSON.stringify\<close> followed by \<open>JSON.parse\<close> does to one array element:
  \<open>NaN\<close> and the infinities are written as \<open>null\<close>, a finite number is written with
  the digits that read back as the same double.
\<close>

fun jsonRoundTrip :: "jsval \<Rightarrow> jsval" where
  "jsonRoundTrip JNaN = JNull"
| "jsonRoundTrip JPosInf = JNull"
| "jsonRoundTrip JNegInf = JNull"
| "jsonRoundTrip JNull = JNull"
| "jsonRoundTrip (JNum n) = JNum n"

fun orEmpty :: "'a list option \<Rightarrow> 'a list" where
  "orEmpty None = []"
| "orEmpty (Some xs) = xs"

text \<open>The constructor starts from two empty sets and calls \<open>load\<close>.\<close>

fun load :: "disk \<Rightarrow> MessageCache" where
  "load NoFile = emptyCache"
| "load Unparsable = emptyCache"
| "load (CacheFile p f t) = \<lparr>processedIds = newSet (orEmpty p), failedIds = newSet (orEmpty f)\<rparr>"

text \<open>
  \<open>save\<close> takes the outcome of \<open>writeFileSync\<close> (\<open>ok\<close>) and the clock reading for
  \<open>lastUpdated\<close>; a write that throws is caught and logged and is taken to leave the
  file as it was.
\<close>

definition save :: "bool \<Rightarrow> jsstring \<Rightarrow> MessageCache \<Rightarrow> disk \<Rightarrow> disk" where
  "save ok now c d =
     (if ok then CacheFile (Some (map jsonRoundTrip (processedIds c)))
                           (Some (map jsonRoundTrip (failedIds c))) now
      else d)"

definition markProcessed :: "bool \<Rightarrow> jsstring \<Rightarrow> jsstring \<Rightarrow> MessageCache \<times> disk \<Rightarrow> MessageCache \<times> disk" where
  "markProcessed ok now messageId s =
     (let i = parseInt messageId;
          c = (fst s)\<lparr>processedIds := setAdd i (processedIds (fst s)),
                     failedIds := setDelete i (failedIds (fst s))\<rparr>
      in (c, save ok now c (snd s)))"

definition markFailed :: "bool \<Rightarrow> jsstring \<Rightarrow> jsstring \<Rightarrow> MessageCache \<times> disk \<Rightarrow> MessageCache \<times> disk" where
  "markFailed ok now messageId s =
     (let i = parseInt messageId;
          c = (fst s)\<lparr>failedIds := setAdd i (failedIds (fst s)),
                     processedIds := setAdd i (processedIds (fst s))\<rparr>
      in (c, save ok now c (snd s)))"

definition isProcessed :: "MessageCache \<Rightarrow> jsstring \<Rightarrow> bool" where
  "isProcessed c messageId \<longleftrightarrow>
     (let i = parseInt messageId in setHas i (processedIds c) \<or> setHas i (failedIds c))"

definition isFailed :: "MessageCache \<Rightarrow> jsstring \<Rightarrow> bool" where
  "isFailed c messageId \<longleftrightarrow> setHas (parseInt messageId) (failedIds c)"

definition getProcessedCount :: "MessageCache \<Rightarrow> nat" where
  "getProcessedCount c = length (processedIds c)"

definition getFailedCount :: "MessageCache \<Rightarrow> nat" where
  "getFailedCount c = length (failedIds c)"

text \<open>A sequence of mark calls on one cache, each with the outcome of its write.\<close>

datatype cacheCall = MarkProcessed bool jsstring jsstring | MarkFailed bool jsstring jsstring

fun applyCall :: "MessageCache \<times> disk \<Rightarrow> cacheCall \<Rightarrow> MessageCache \<times> disk" where
  "applyCall s (MarkProcessed ok now mid) = markProcessed ok now mid s"
| "applyCall s (MarkFailed ok now mid) = markFailed ok now mid s"

definition applyCalls :: "cacheCall list \<Rightarrow> MessageCache \<times> disk \<Rightarrow> MessageCache \<times> disk" where
  "applyCalls calls s = foldl applyCall s calls"

section \<open>message-processor.ts: from a raw message to a postable unit\<close>

record Config =
  polling_interval :: int
  tweet_maxLength :: int

text \<open>
  An attachment as \<open>getMessageAttachments\<close> hands it over: three columns of the
  attachment table, each of which may be \<open>NULL\<close> (\<open>None\<close>). In the records below,
  \<open>msg_id\<close> and \<open>msg_text\<close> are the fields \<open>id\<close> and \<open>text\<close> of
  \<open>IMessageData\<close>, \<open>pm_text\<close> is the field \<open>text\<close> of \<open>ProcessedMessage\<close>, and
  \<open>polling_interval\<close> and \<open>tweet_maxLength\<close> are \<open>polling.interval\<close> and
  \<open>tweet.maxLength\<close> of \<open>Config\<close>, taken as integers.
\<close>

record Attachment =
  filename :: "jsstring option"
  mime_type :: "jsstring option"
  transfer_name :: "jsstring option"

record IMessageData =
  msg_id :: jsstring
  msg_text :: jsstring
  handle_id :: jsstring
  date :: int
  is_from_me :: bool
  attachments :: "Attachment list option"

record ProcessedMessage =
  pm_text :: jsstring
  mediaPaths :: "jsstring list"
  originalText :: jsstring
  wasTruncated :: bool

text \<open>
  The marker that \<open>processMessage\<close> appends when it cuts the text. The string literal
  in the source file is the three code units U+00E2, U+20AC, U+00A6.
\<close>

definition truncationMarker :: jsstring where
  "truncationMarker = [0x00E2, 0x20AC, 0x00A6]"

text \<open>
  \<open>toLowerCase\<close> on the ASCII range. JavaScript also lowers letters outside ASCII, but
  the result is only compared with the seven ASCII literals of \<open>supportedImageTypes\<close>,
  and the one code unit outside ASCII whose lower case is an ASCII letter (U+212A, to
  \<open>k\<close>) cannot produce any of them, so the membership test is the same.
\<close>

definition toLowerCase :: "jsstring \<Rightarrow> jsstring" where
  "toLowerCase s = map (\<lambda>c. if 0x41 \<le> c \<and> c \<le> 0x5A then c + 0x20 else c) s"

definition supportedImageTypes :: "jsstring list" where
  "supportedImageTypes = map ascii
     [''image/jpeg'', ''image/jpg'', ''image/png'', ''image/gif'', ''image/webp'',
      ''image/heic'', ''image/heif'']"

text \<open>
  The replacement text of \<open>String.prototype.replace\<close> with a string pattern: in the
  replacement, \<open>$$\<close> stands for a dollar sign, \<open>$&\<close> for the matched text, \<open>$`\<close> and
  \<open>$'\<close> for the text before and after the match; a dollar sign before anything else is
  kept as it is (there are no capture groups).
\<close>

fun getSubstitution :: "jsstring \<Rightarrow> jsstring \<Rightarrow> jsstring \<Rightarrow> jsstring \<Rightarrow> jsstring" where
  "getSubstitution matched preceding following [] = []"
| "getSubstitution matched preceding following [c] = [c]"
| "getSubstitution matched preceding following (c # d # r) =
     (if c = 0x24 \<and> d = 0x24 then 0x24 # getSubstitution matched preceding following r
      else if c = 0x24 \<and> d = 0x26 then matched @ getSubstitution matched preceding following r
      else if c = 0x24 \<and> d = 0x60 then preceding @ getSubstitution matched preceding following r
      else if c = 0x24 \<and> d = 0x27 then following @ getSubstitution matched preceding following r
      else c # getSubstitution matched preceding following (d # r))"

text \<open>
  \<open>if (path.startsWith('~')) path = path.replace('~', homedir())\<close>: the first tilde is
  the leading one.
\<close>

definition expandHome :: "jsstring \<Rightarrow> jsstring \<Rightarrow> jsstring" where
  "expandHome home path =
     (case path of
        [] \<Rightarrow> path
      | c # r \<Rightarrow> if c = 0x7E then getSubstitution [0x7E] [] r home @ r else path)"

definition optTruthy :: "jsstring option \<Rightarrow> bool" where
  "optTruthy v = (case v of None \<Rightarrow> False | Some s \<Rightarrow> truthy s)"

text \<open>\<open>a || b\<close> on two possibly missing strings.\<close>

definition orElse :: "jsstring option \<Rightarrow> jsstring option \<Rightarrow> jsstring option" where
  "orElse a b = (if optTruthy a then a else b)"

definition isSupportedImage :: "Attachment \<Rightarrow> bool" where
  "isSupportedImage a =
     (case mime_type a of
        None \<Rightarrow> False
      | Some m \<Rightarrow> truthy m \<and> toLowerCase m \<in> set supportedImageTypes)"

text \<open>One turn of the loop of \<open>extractMediaPaths\<close>: the paths this attachment adds.\<close>

definition attachmentPath :: "jsstring \<Rightarrow> Attachment \<Rightarrow> jsstring list" where
  "attachmentPath home a =
     (if isSupportedImage a then
        (case orElse (filename a) (transfer_name a) of
           None \<Rightarrow> []
         | Some path \<Rightarrow> if truthy path then [expandHome home path] else [])
      else [])"

definition extractMediaPaths :: "jsstring \<Rightarrow> IMessageData \<Rightarrow> jsstring list" where
  "extractMediaPaths home message =
     (case attachments message of
        None \<Rightarrow> []
      | Some atts \<Rightarrow> concat (map (attachmentPath home) atts))"

definition processMessage :: "Config \<Rightarrow> jsstring \<Rightarrow> IMessageData \<Rightarrow> ProcessedMessage" where
  "processMessage config home message =
     (let text0 = trim (msg_text message);
          cut = (int (length text0) > tweet_maxLength config);
          text1 = (if cut then substring0 text0 (tweet_maxLength config - 1) @ truncationMarker
                   else text0);
          paths = extractMediaPaths home message;
          paths4 = (if length paths > 4 then take 4 paths else paths)
      in \<lparr>pm_text = text1, mediaPaths = paths4, originalText = text0, wasTruncated = cut\<rparr>)"

definition validateMessage :: "ProcessedMessage \<Rightarrow> bool" where
  "validateMessage message \<longleftrightarrow> \<not> (\<not> truthy (pm_text message) \<and> length (mediaPaths message) = 0)"

section \<open>imessage-monitor.ts: fetching and filtering\<close>

record MessageRow =
  ROWID :: int
  guid :: jsstring
  row_text :: "jsstring option"
  row_handle_id :: int
  row_date :: int
  row_is_from_me :: int

datatype error = Error jsstring

text \<open>
  The world outside the daemon: the home directory, the two SQL queries, the image
  converter, the two calls of the X client, the outcome of writing the cache file and
  the clock. Every call but \<open>homedir\<close> takes the number of external calls made so far,
  so that the same call may answer differently each time; \<open>Inl\<close> is a thrown error.
  The message query is the statement of \<open>getNewMessages\<close>, which asks for at most ten
  rows of the contact, newest first.
\<close>

record Env =
  homedir :: jsstring
  queryMessages :: "nat \<Rightarrow> error + MessageRow list"
  queryAttachments :: "nat \<Rightarrow> int \<Rightarrow> error + Attachment list"
  processImage :: "nat \<Rightarrow> jsstring \<Rightarrow> error + jsstring"
  uploadMedia :: "nat \<Rightarrow> jsstring \<Rightarrow> error + jsstring"
  postTweet :: "nat \<Rightarrow> jsstring \<Rightarrow> jsstring list option \<Rightarrow> error + jsstring"
  writeFileOk :: "nat \<Rightarrow> bool"
  isoNow :: "nat \<Rightarrow> jsstring"

text \<open>
  The state of the running daemon: the monitor's cache and the content of its file,
  whether the database handle and the contact's handle id are set, the count of
  external calls, and the two variables of the polling loop.
\<close>

record Daemon =
  cache :: MessageCache
  cacheFileContent :: disk
  dbReady :: bool
  clock :: nat
  consecutiveErrors :: nat
  isShuttingDown :: bool

definition getMessageAttachments :: "Env \<Rightarrow> nat \<Rightarrow> int \<Rightarrow> Attachment list" where
  "getMessageAttachments env t messageRowId =
     (case queryAttachments env t messageRowId of Inl e \<Rightarrow> [] | Inr atts \<Rightarrow> atts)"

definition toMessage :: "MessageRow \<Rightarrow> Attachment list \<Rightarrow> IMessageData" where
  "toMessage msg atts =
     \<lparr>msg_id = toString (ROWID msg),
      msg_text = (case row_text msg of None \<Rightarrow> [] | Some s \<Rightarrow> s),
      handle_id = toString (row_handle_id msg),
      date = row_date msg,
      is_from_me = (row_is_from_me msg = 1),
      attachments = Some atts\<rparr>"

text \<open>The filtering loop of \<open>getNewMessages\<close>; the cache does not change while it runs.\<close>

fun filterNew :: "Env \<Rightarrow> MessageCache \<Rightarrow> MessageRow list \<Rightarrow> nat \<Rightarrow> IMessageData list \<times> nat" where
  "filterNew env c [] t = ([], t)"
| "filterNew env c (msg # rest) t =
     (if \<not> isProcessed c (toString (ROWID msg)) then
        (let atts = getMessageAttachments env t (ROWID msg);
             r = filterNew env c rest (t + 1)
         in (toMessage msg atts # fst r, snd r))
      else filterNew env c rest t)"

text \<open>
  \<open>getNewMessages\<close> has its whole body in a \<open>try\<close> whose \<open>catch\<close> logs and returns the
  empty array; the result is a sum only because the caller has a \<open>catch\<close> for it.
\<close>

definition getNewMessages :: "Env \<Rightarrow> Daemon \<Rightarrow> (error + IMessageData list) \<times> Daemon" where
  "getNewMessages env st =
     (if \<not> dbReady st then (Inr [], st)
      else (case queryMessages env (clock st) of
              Inl e \<Rightarrow> (Inr [], st\<lparr>clock := clock st + 1\<rparr>)
            | Inr messages \<Rightarrow>
                (let r = filterNew env (cache st) messages (clock st + 1)
                 in (Inr (fst r), st\<lparr>clock := snd r\<rparr>))))"

definition markAsProcessed :: "Env \<Rightarrow> jsstring \<Rightarrow> Daemon \<Rightarrow> Daemon" where
  "markAsProcessed env messageId st =
     (let r = markProcessed (writeFileOk env (clock st)) (isoNow env (clock st)) messageId
                (cache st, cacheFileContent st)
      in st\<lparr>cache := fst r, cacheFileContent := snd r, clock := clock st + 1\<rparr>)"

definition markAsFailed :: "Env \<Rightarrow> jsstring \<Rightarrow> Daemon \<Rightarrow> Daemon" where
  "markAsFailed env messageId st =
     (let r = markFailed (writeFileOk env (clock st)) (isoNow env (clock st)) messageId
                (cache st, cacheFileContent st)
      in st\<lparr>cache := fst r, cacheFileContent := snd r, clock := clock st + 1\<rparr>)"

section \<open>index.ts: the polling loop\<close>

text \<open>
  What the loop does to the outside, in order. Every call made while a record is
  processed carries that record's id: the converter call with the media path and its
  result, the two client calls with their arguments and results, and the two cache
  calls. \<open>EvSleep\<close> is the wait between cycles and \<open>EvExit\<close> the \<open>process.exit(0)\<close>
  of \<open>shutdown\<close>.
\<close>

datatype event =
    EvConvert jsstring jsstring "error + jsstring"
  | EvUpload jsstring jsstring "error + jsstring"
  | EvPost jsstring jsstring "jsstring list option" "error + jsstring"
  | EvMarkProcessed jsstring
  | EvMarkFailed jsstring
  | EvSleep int
  | EvExit

text \<open>
  The loop over \<open>mediaPaths\<close>: each path is converted and uploaded inside its own
  \<open>try\<close>; the result is the events, the collected media ids and the new clock.
\<close>

fun uploadAll :: "Env \<Rightarrow> jsstring \<Rightarrow> jsstring list \<Rightarrow> nat \<Rightarrow> event list \<times> jsstring list \<times> nat" where
  "uploadAll env rid [] t = ([], [], t)"
| "uploadAll env rid (mediaPath # rest) t =
     (case processImage env t mediaPath of
        Inl e \<Rightarrow>
          (let r = uploadAll env rid rest (t + 1)
           in (EvConvert rid mediaPath (Inl e) # fst r, fst (snd r), snd (snd r)))
      | Inr uploadPath \<Rightarrow>
          (case uploadMedia env (t + 1) uploadPath of
             Inl e \<Rightarrow>
               (let r = uploadAll env rid rest (t + 2)
                in (EvConvert rid mediaPath (Inr uploadPath) # EvUpload rid uploadPath (Inl e) # fst r,
                    fst (snd r), snd (snd r)))
           | Inr mediaId \<Rightarrow>
               (let r = uploadAll env rid rest (t + 2)
                in (EvConvert rid mediaPath (Inr uploadPath) # EvUpload rid uploadPath (Inr mediaId) # fst r,
                    mediaId # fst (snd r), snd (snd r)))))"

text \<open>
  The body of the loop over the new messages. Inside its \<open>try\<close> only \<open>postTweet\<close> can
  throw: \<open>processMessage\<close> and \<open>validateMessage\<close> are pure, the upload errors are caught
  per path, and the cache catches its own write errors.
\<close>

definition processRecord :: "Env \<Rightarrow> Config \<Rightarrow> IMessageData \<Rightarrow> Daemon \<Rightarrow> event list \<times> Daemon" where
  "processRecord env config rawMessage st =
     (let rid = msg_id rawMessage;
          processedMessage = processMessage config (homedir env) rawMessage
      in if \<not> validateMessage processedMessage
         then ([EvMarkProcessed rid], markAsProcessed env rid st)
         else
           (let up = (if length (mediaPaths processedMessage) > 0
                      then uploadAll env rid (mediaPaths processedMessage) (clock st)
                      else ([], [], clock st));
                evs = fst up;
                mediaIds = fst (snd up);
                st1 = st\<lparr>clock := snd (snd up)\<rparr>
            in if length (mediaPaths processedMessage) > 0 \<and> length mediaIds = 0
                  \<and> \<not> truthy (pm_text processedMessage)
               then (evs @ [EvMarkProcessed rid], markAsProcessed env rid st1)
               else
                 (let media = (if length mediaIds > 0 then Some mediaIds else None);
                      st2 = st1\<lparr>clock := clock st1 + 1\<rparr>
                  in case postTweet env (clock st1) (pm_text processedMessage) media of
                       Inr tweetId \<Rightarrow>
                         (evs @ [EvPost rid (pm_text processedMessage) media (Inr tweetId),
                                 EvMarkProcessed rid],
                          (markAsProcessed env rid st2)\<lparr>consecutiveErrors := 0\<rparr>)
                     | Inl e \<Rightarrow>
                         (evs @ [EvPost rid (pm_text processedMessage) media (Inl e),
                                 EvMarkFailed rid],
                          markAsFailed env rid st2))))"

fun processAll :: "Env \<Rightarrow> Config \<Rightarrow> IMessageData list \<Rightarrow> Daemon \<Rightarrow> event list \<times> Daemon" where
  "processAll env config [] st = ([], st)"
| "processAll env config (rawMessage # rest) st =
     (let r1 = processRecord env config rawMessage st;
          r2 = processAll env config rest (snd r1)
      in (fst r1 @ fst r2, snd r2))"

definition MAX_CONSECUTIVE_ERRORS :: nat where
  "MAX_CONSECUTIVE_ERRORS = 5"

text \<open>\<open>shutdown\<close> sets the flag, closes the database and leaves the process.\<close>

definition shutdown :: "Daemon \<Rightarrow> Daemon" where
  "shutdown st = (if isShuttingDown st then st else st\<lparr>isShuttingDown := True, dbReady := False\<rparr>)"

text \<open>
  One turn of \<open>while (!isShuttingDown)\<close>. The \<open>Inl\<close> branch is the \<open>catch\<close> of the
  loop body: it counts the error, shuts down at the fifth in a row (the process exits,
  so the longer sleep is not reached then) and otherwise sleeps twice the interval.
\<close>

definition mainCycle :: "Env \<Rightarrow> Config \<Rightarrow> Daemon \<Rightarrow> event list \<times> Daemon" where
  "mainCycle env config st =
     (let g = getNewMessages env st
      in case fst g of
           Inr newMessages \<Rightarrow>
             (let r = processAll env config newMessages (snd g)
              in (fst r @ [EvSleep (polling_interval config)], snd r))
         | Inl e \<Rightarrow>
             (let st1 = (snd g)\<lparr>consecutiveErrors := consecutiveErrors (snd g) + 1\<rparr>
              in if consecutiveErrors st1 \<ge> MAX_CONSECUTIVE_ERRORS
                 then ([EvExit], shutdown st1)
                 else ([EvSleep (polling_interval config * 2)], st1)))"

text \<open>The loop, for at most \<open>n\<close> turns.\<close>

fun mainLoop :: "Env \<Rightarrow> Config \<Rightarrow> nat \<Rightarrow> Daemon \<Rightarrow> event list \<times> Daemon" where
  "mainLoop env config 0 st = ([], st)"
| "mainLoop env config (Suc n) st =
     (if isShuttingDown st then ([], st)
      else (let r1 = mainCycle env config st;
                r2 = mainLoop env config n (snd r1)
            in (fst r1 @ fst r2, snd r2)))"

subsection \<open>Reading the events\<close>

fun eventRecord :: "event \<Rightarrow> jsstring option" where
  "eventRecord (EvConvert rid p r) = Some rid"
| "eventRecord (EvUpload rid p r) = Some rid"
| "eventRecord (EvPost rid t m r) = Some rid"
| "eventRecord (EvMarkProcessed rid) = Some rid"
| "eventRecord (EvMarkFailed rid) = Some rid"
| "eventRecord (EvSleep ms) = None"
| "eventRecord EvExit = None"

text \<open>The calls that go to the Publisher, that is to the X client.\<close>

fun isPublisherCall :: "event \<Rightarrow> bool" where
  "isPublisherCall (EvUpload rid p r) = True"
| "isPublisherCall (EvPost rid t m r) = True"
| "isPublisherCall e = False"

fun postedId :: "event \<Rightarrow> jsstring option" where
  "postedId (EvPost rid t m r) = Some rid"
| "postedId e = None"

fun resolvedId :: "event \<Rightarrow> jsstring option" where
  "resolvedId (EvMarkProcessed rid) = Some rid"
| "resolvedId (EvMarkFailed rid) = Some rid"
| "resolvedId e = None"

fun convertedPath :: "event \<Rightarrow> jsstring option" where
  "convertedPath (EvConvert rid p r) = Some p"
| "convertedPath e = None"

fun uploadedId :: "event \<Rightarrow> jsstring option" where
  "uploadedId (EvUpload rid p (Inr mediaId)) = Some mediaId"
| "uploadedId e = None"

text \<open>The media ids a post call carries; \<open>undefined\<close> carries none.\<close>

fun postMedia :: "event \<Rightarrow> jsstring list option" where
  "postMedia (EvPost rid t m r) = Some (orEmpty m)"
| "postMedia e = None"

definition postedIds :: "event list \<Rightarrow> jsstring list" where
  "postedIds evs = List.map_filter postedId evs"

definition resolvedIds :: "event list \<Rightarrow> jsstring list" where
  "resolvedIds evs = List.map_filter resolvedId evs"

definition convertedPaths :: "event list \<Rightarrow> jsstring list" where
  "convertedPaths evs = List.map_filter convertedPath evs"

definition uploadedIds :: "event list \<Rightarrow> jsstring list" where
  "uploadedIds evs = List.map_filter uploadedId evs"

fun isUploadCall :: "event \<Rightarrow> bool" where
  "isUploadCall (EvUpload rid p r) = True"
| "isUploadCall e = False"

text \<open>
  The upload path that a successful conversion returned, the path that an upload call
  was given, and the text of a post call.
\<close>

fun readyPath :: "event \<Rightarrow> jsstring option" where
  "readyPath (EvConvert rid p (Inr uploadPath)) = Some uploadPath"
| "readyPath e = None"

fun uploadAttempt :: "event \<Rightarrow> jsstring option" where
  "uploadAttempt (EvUpload rid p r) = Some p"
| "uploadAttempt e = None"

fun postText :: "event \<Rightarrow> jsstring option" where
  "postText (EvPost rid t m r) = Some t"
| "postText e = None"

definition readyPaths :: "event list \<Rightarrow> jsstring list" where
  "readyPaths evs = List.map_filter readyPath evs"

definition uploadAttempts :: "event list \<Rightarrow> jsstring list" where
  "uploadAttempts evs = List.map_filter uploadAttempt evs"

definition postTexts :: "event list \<Rightarrow> jsstring list" where
  "postTexts evs = List.map_filter postText evs"

text \<open>
  Every event is one external call, made at the clock reading that follows the one of
  the event before it. \<open>answersFrom env t evs\<close> says that the result recorded in each
  converter, upload and post event of \<open>evs\<close>, the first of which is made at \<open>t\<close>, is
  what the environment answers to that very call at that time.
\<close>

fun isAnswerAt :: "Env \<Rightarrow> nat \<Rightarrow> event \<Rightarrow> bool" where
  "isAnswerAt env t (EvConvert rid p r) = (r = processImage env t p)"
| "isAnswerAt env t (EvUpload rid p r) = (r = uploadMedia env t p)"
| "isAnswerAt env t (EvPost rid x m r) = (r = postTweet env t x m)"
| "isAnswerAt env t e = True"

fun answersFrom :: "Env \<Rightarrow> nat \<Rightarrow> event list \<Rightarrow> bool" where
  "answersFrom env t [] = True"
| "answersFrom env t (e # es) = (isAnswerAt env t e \<and> answersFrom env (Suc t) es)"

section \<open>The media paths, as the amended claim C6 words them\<close>

text \<open>
  An attachment contributes a path when its MIME type is one of the supported image
  types and it has a non-empty file name or transfer name; the path is that name with
  a leading tilde expanded. \<open>cappedImagePaths\<close> is the first four of these, in the
  order of the attachments. It is compared below with what \<open>processMessage\<close> computes.
\<close>

definition hasImagePath :: "Attachment \<Rightarrow> bool" where
  "hasImagePath a \<longleftrightarrow> isSupportedImage a \<and> optTruthy (orElse (filename a) (transfer_name a))"

definition resolvedPath :: "jsstring \<Rightarrow> Attachment \<Rightarrow> jsstring" where
  "resolvedPath home a =
     expandHome home (case orElse (filename a) (transfer_name a) of None \<Rightarrow> [] | Some p \<Rightarrow> p)"

definition cappedImagePaths :: "jsstring \<Rightarrow> IMessageData \<Rightarrow> jsstring list" where
  "cappedImagePaths home message =
     take 4 (map (resolvedPath home) (filter hasImagePath (orEmpty (attachments message))))"

section \<open>Concrete inputs\<close>

definition exampleConfig :: Config where
  "exampleConfig = \<lparr>polling_interval = 3000, tweet_maxLength = 280\<rparr>"

definition config10 :: Config where
  "config10 = \<lparr>polling_interval = 3000, tweet_maxLength = 10\<rparr>"

definition freshDaemon :: Daemon where
  "freshDaemon = \<lparr>cache = emptyCache, cacheFileContent = NoFile, dbReady = True, clock = 0,
                   consecutiveErrors = 0, isShuttingDown = False\<rparr>"

text \<open>An environment in which nothing fails and the contact has sent nothing.\<close>

definition quietEnv :: Env where
  "quietEnv = \<lparr>homedir = ascii ''/Users/me'',
               queryMessages = (\<lambda>t. Inr []),
               queryAttachments = (\<lambda>t r. Inr []),
               processImage = (\<lambda>t p. Inr p),
               uploadMedia = (\<lambda>t p. Inr p),
               postTweet = (\<lambda>t x m. Inr (ascii ''tweet'')),
               writeFileOk = (\<lambda>t. True),
               isoNow = (\<lambda>t. [])\<rparr>"

definition exampleMessage :: "string \<Rightarrow> string \<Rightarrow> Attachment list \<Rightarrow> IMessageData" where
  "exampleMessage i t atts =
     \<lparr>msg_id = ascii i, msg_text = ascii t, handle_id = ascii ''1'', date = 0,
      is_from_me = True, attachments = Some atts\<rparr>"

definition exampleAttachment :: "string \<Rightarrow> string \<Rightarrow> Attachment" where
  "exampleAttachment name mime =
     \<lparr>filename = Some (ascii name), mime_type = Some (ascii mime), transfer_name = None\<rparr>"

definition exampleRow :: "int \<Rightarrow> int \<Rightarrow> string \<Rightarrow> MessageRow" where
  "exampleRow i d t =
     \<lparr>ROWID = i, guid = [], row_text = Some (ascii t), row_handle_id = 1, row_date = d,
      row_is_from_me = 1\<rparr>"

text \<open>A message of fifteen characters, for a limit of ten.\<close>

definition message15 :: IMessageData where
  "message15 = exampleMessage ''7'' ''abcdefghijklmno'' []"

text \<open>A message whose text is white space only and that has no attachment.\<close>

definition blankMessage :: IMessageData where
  "blankMessage = exampleMessage ''5'' ''   '' []"

definition sixVideos :: IMessageData where
  "sixVideos = exampleMessage ''6'' ''clips''
     [exampleAttachment ''/v1.mp4'' ''video/mp4'', exampleAttachment ''/v2.mp4'' ''video/mp4'',
      exampleAttachment ''/v3.mp4'' ''video/mp4'', exampleAttachment ''/v4.mp4'' ''video/mp4'',
      exampleAttachment ''/v5.mp4'' ''video/mp4'', exampleAttachment ''/v6.mp4'' ''video/mp4'']"

definition sixImages :: IMessageData where
  "sixImages = exampleMessage ''4'' ''photos''
     [exampleAttachment ''/p1.jpg'' ''image/jpeg'', exampleAttachment ''/p2.jpg'' ''image/jpeg'',
      exampleAttachment ''/p3.jpg'' ''image/jpeg'', exampleAttachment ''/p4.jpg'' ''image/jpeg'',
      exampleAttachment ''/p5.jpg'' ''image/jpeg'', exampleAttachment ''/p6.jpg'' ''image/jpeg'']"

definition threeImages :: IMessageData where
  "threeImages = exampleMessage ''8'' ''hi''
     [exampleAttachment ''/a.jpg'' ''image/jpeg'', exampleAttachment ''~/b.PNG'' ''IMAGE/PNG'',
      exampleAttachment ''/c.gif'' ''image/gif'']"

text \<open>
  Processing \<open>threeImages\<close> from clock 0 converts at 0, 2 and 4 and uploads at 1, 3
  and 5: here the second upload throws.
\<close>

definition secondUploadFails :: Env where
  "secondUploadFails =
     quietEnv\<lparr>uploadMedia :=
       (\<lambda>t p. if t = 3 then Inl (Error (ascii ''Media upload failed'')) else Inr p)\<rparr>"

text \<open>The query returns one row, id 9, and every post throws.\<close>

definition postFails :: Env where
  "postFails =
     quietEnv\<lparr>queryMessages := (\<lambda>t. Inr [exampleRow 9 100 ''hello'']),
              postTweet := (\<lambda>t x m. Inl (Error (ascii ''Tweet posting failed'')))\<rparr>"

text \<open>The query returns row 7, which the cache of \<open>resolvedDaemon\<close> already holds.\<close>

definition refetchEnv :: Env where
  "refetchEnv = quietEnv\<lparr>queryMessages := (\<lambda>t. Inr [exampleRow 7 100 ''hello''])\<rparr>"

definition resolvedDaemon :: Daemon where
  "resolvedDaemon = freshDaemon\<lparr>cache := \<lparr>processedIds = [JNum 7], failedIds = []\<rparr>\<rparr>"

text \<open>The query returns two rows, the newer one (date 200) before the older one (date 100).\<close>

definition twoRows :: Env where
  "twoRows =
     quietEnv\<lparr>queryMessages := (\<lambda>t. Inr [exampleRow 2 200 ''newer'', exampleRow 1 100 ''older''])\<rparr>"

text \<open>The first conversion throws (processing from clock 0 converts first at 0).\<close>

definition firstConversionFails :: Env where
  "firstConversionFails =
     quietEnv\<lparr>processImage :=
       (\<lambda>t p. if t = 0 then Inl (Error (ascii ''Image file not found'')) else Inr p)\<rparr>"

text \<open>Every upload throws.\<close>

definition everyUploadFails :: Env where
  "everyUploadFails =
     quietEnv\<lparr>uploadMedia := (\<lambda>t p. Inl (Error (ascii ''Media upload failed'')))\<rparr>"

text \<open>One image with the text \<open>hi\<close>, and one image with no text.\<close>

definition oneImage :: IMessageData where
  "oneImage = exampleMessage ''8'' ''hi'' [exampleAttachment ''/a.jpg'' ''image/jpeg'']"

definition imageOnly :: IMessageData where
  "imageOnly = exampleMessage ''3'' [] [exampleAttachment ''/a.jpg'' ''image/jpeg'']"

text \<open>Every query of the message table throws.\<close>

definition brokenSource :: Env where
  "brokenSource = quietEnv\<lparr>queryMessages := (\<lambda>t. Inl (Error (ascii ''SQLITE_IOERR'')))\<rparr>"


section \<open>The invariant of the cache\<close>

text \<open>Both sets are duplicate-free and every failed id is also a processed id.\<close>

definition cacheInv :: "MessageCache \<Rightarrow> bool" where
  "cacheInv c \<longleftrightarrow>
     distinct (processedIds c) \<and> distinct (failedIds c)
     \<and> set (failedIds c) \<subseteq> set (processedIds c)"

section \<open>Properties of the set operations\<close>

lemma set_setAdd: "set (setAdd x xs) = insert x (set xs)"
  by (auto simp: setAdd_def)

lemma set_setDelete: "set (setDelete x xs) = set xs - {x}"
  by (auto simp: setDelete_def)

lemma distinct_setAdd: "distinct xs \<Longrightarrow> distinct (setAdd x xs)"
  by (auto simp: setAdd_def)

lemma distinct_setDelete: "distinct xs \<Longrightarrow> distinct (setDelete x xs)"
  by (auto simp: setDelete_def distinct_removeAll)



section \<open>Row ids survive toString and parseInt\<close>

lemma unat_digitChar: "d < 10 \<Longrightarrow> unat (digitChar d) = 48 + d"
  unfolding digitChar_def unat_of_nat by simp

lemma isDigit_digitChar: "d < 10 \<Longrightarrow> isDigit (digitChar d)"
  by (simp add: isDigit_def word_le_nat_alt unat_digitChar)

lemma isDigit_not_ws: "isDigit c \<Longrightarrow> \<not> isWhiteSpace c"
  by (auto simp: isDigit_def isWhiteSpace_def word_le_nat_alt)

lemma isDigit_not_sign: "isDigit c \<Longrightarrow> c \<noteq> 0x2B \<and> c \<noteq> 0x2D"
  by (auto simp: isDigit_def word_le_nat_alt)

lemma digits_all: "\<forall>c \<in> set (digits n). isDigit c"
proof (induction n rule: digits.induct)
  case (1 n)
  show ?case
  proof (cases "n < 10")
    case True
    then show ?thesis by (subst digits.simps) (simp add: isDigit_digitChar)
  next
    case False
    then show ?thesis using 1 by (subst digits.simps) (simp add: isDigit_digitChar)
  qed
qed

lemma digits_nonempty: "digits n \<noteq> []"
  by (subst digits.simps) simp

lemma uint_digitChar: "d < 10 \<Longrightarrow> uint (digitChar d) = 48 + int d"
  using unat_digitChar[of d] by (simp add: uint_nat)

lemma digitsValue_snoc: "digitsValue (xs @ [c]) = 10 * digitsValue xs + (uint c - 48)"
  by (simp add: digitsValue_def)

lemma digitsValue_digits: "digitsValue (digits n) = int n"
proof (induction n rule: digits.induct)
  case (1 n)
  show ?case
  proof (cases "n < 10")
    case True
    then show ?thesis by (subst digits.simps) (simp add: digitsValue_def uint_digitChar)
  next
    case False
    then have "digitsValue (digits n)
                 = 10 * digitsValue (digits (n div 10)) + (uint (digitChar (n mod 10)) - 48)"
      by (subst digits.simps) (simp add: digitsValue_snoc)
    also have "\<dots> = 10 * int (n div 10) + int (n mod 10)"
      using 1 False by (simp add: uint_digitChar)
    also have "\<dots> = int n"
      by (simp add: zdiv_int zmod_int)
    finally show ?thesis .
  qed
qed

lemma parse_digits:
  assumes "\<forall>c \<in> set z. isDigit c" and "z \<noteq> []"
  shows "parseInt z = numberOfInt (digitsValue z)"
proof -
  obtain c r where z: "z = c # r" using assms(2) by (cases z) auto
  have c: "isDigit c" using assms(1) z by simp
  have dw: "dropWhile isWhiteSpace z = z" using c z isDigit_not_ws by simp
  have tw: "takeWhile isDigit z = z" using assms(1) by (simp add: takeWhile_eq_all_conv)
  show ?thesis
    using isDigit_not_sign[OF c] tw
    unfolding parseInt_def dw by (simp add: z Let_def)
qed

lemma parse_neg_digits:
  assumes "\<forall>c \<in> set z. isDigit c" and "z \<noteq> []"
  shows "parseInt (0x2D # z) = numberOfInt (- digitsValue z)"
proof -
  have tw: "takeWhile isDigit z = z" using assms(1) by (simp add: takeWhile_eq_all_conv)
  have nws: "\<not> isWhiteSpace 0x2D" by (simp add: isWhiteSpace_def)
  show ?thesis using assms(2) nws by (simp add: parseInt_def Let_def tw)
qed

lemma numberOfInt_exact: "\<bar>x\<bar> < 9007199254740992 \<Longrightarrow> numberOfInt x = JNum x"
  by (simp add: numberOfInt_def)

text \<open>
  Every id that \<open>getNewMessages\<close> makes from a row id below \<open>2^53\<close> in magnitude
  parses back to that row id.
\<close>

lemma parseInt_toString:
  assumes "\<bar>i\<bar> < 9007199254740992"
  shows "parseInt (toString i) = JNum i"
proof (cases "i < 0")
  case True
  then have "parseInt (toString i) = numberOfInt i"
    by (simp add: toString_def parse_neg_digits digits_all digits_nonempty digitsValue_digits)
  then show ?thesis using assms by (simp add: numberOfInt_exact)
next
  case False
  then have "parseInt (toString i) = numberOfInt i"
    by (simp add: toString_def parse_digits digits_all digits_nonempty digitsValue_digits)
  then show ?thesis using assms by (simp add: numberOfInt_exact)
qed

lemma parseInt_cases:
  "parseInt s = JNaN \<or> parseInt s = JPosInf \<or> parseInt s = JNegInf \<or> (\<exists>n. parseInt s = JNum n)"
  by (simp add: parseInt_def numberOfInt_def Let_def)

section \<open>The message cache\<close>

lemma markFailed_sets:
  "failedIds (fst (markFailed ok now mid s)) = setAdd (parseInt mid) (failedIds (fst s))"
  "processedIds (fst (markFailed ok now mid s)) = setAdd (parseInt mid) (processedIds (fst s))"
  by (simp_all add: markFailed_def Let_def)

lemma markProcessed_sets:
  "failedIds (fst (markProcessed ok now mid s)) = setDelete (parseInt mid) (failedIds (fst s))"
  "processedIds (fst (markProcessed ok now mid s)) = setAdd (parseInt mid) (processedIds (fst s))"
  by (simp_all add: markProcessed_def Let_def)

lemma cacheInv_empty: "cacheInv emptyCache"
  by (simp add: cacheInv_def emptyCache_def)

lemma cacheInv_markProcessed: "cacheInv (fst s) \<Longrightarrow> cacheInv (fst (markProcessed ok now mid s))"
  by (auto simp: cacheInv_def markProcessed_sets set_setAdd set_setDelete distinct_setAdd
      distinct_setDelete)

lemma cacheInv_markFailed: "cacheInv (fst s) \<Longrightarrow> cacheInv (fst (markFailed ok now mid s))"
  by (auto simp: cacheInv_def markFailed_sets set_setAdd distinct_setAdd)

lemma cacheInv_applyCall: "cacheInv (fst s) \<Longrightarrow> cacheInv (fst (applyCall s c))"
  by (cases c) (simp_all add: cacheInv_markProcessed cacheInv_markFailed)

lemma cacheInv_foldl: "cacheInv (fst s) \<Longrightarrow> cacheInv (fst (foldl applyCall s calls))"
  by (induction calls arbitrary: s) (simp_all add: cacheInv_applyCall)

lemma cacheInv_applyCalls: "cacheInv (fst (applyCalls calls (emptyCache, d)))"
  by (simp add: applyCalls_def cacheInv_foldl cacheInv_empty)

lemma cacheInv_counts: "cacheInv c \<Longrightarrow> getFailedCount c \<le> getProcessedCount c"
  unfolding cacheInv_def getFailedCount_def getProcessedCount_def
  by (metis card_mono distinct_card List.finite_set)

lemma isProcessed_markProcessed: "isProcessed (fst (markProcessed ok now mid s)) mid"
  by (simp add: isProcessed_def markProcessed_sets setHas_def set_setAdd Let_def)

lemma isProcessed_markFailed: "isProcessed (fst (markFailed ok now mid s)) mid"
  by (simp add: isProcessed_def markFailed_sets setHas_def set_setAdd Let_def)

lemma keep_markProcessed:
  "isProcessed (fst s) x \<Longrightarrow> isProcessed (fst (markProcessed ok now mid s)) x"
  by (auto simp: isProcessed_def markProcessed_sets setHas_def set_setAdd set_setDelete Let_def)

lemma keep_markFailed:
  "isProcessed (fst s) x \<Longrightarrow> isProcessed (fst (markFailed ok now mid s)) x"
  by (auto simp: isProcessed_def markFailed_sets setHas_def set_setAdd Let_def)





lemmas cache_eval = applyCalls_def markProcessed_def markFailed_def isProcessed_def parseInt_def
  ascii_def isWhiteSpace_def isDigit_def digitsValue_def numberOfInt_def emptyCache_def
  setAdd_def setDelete_def
  setHas_def save_def newSet_def getProcessedCount_def getFailedCount_def Let_def

text \<open>
  C10. \<open>markFailed\<close> puts the id into the failed set and into the processed set,
  \<open>markProcessed\<close> takes it out of the failed set; so after any sequence of mark calls
  on an empty cache the failed set is a subset of the processed set, \<open>isProcessed\<close>
  holds for an id after either call on it, and \<open>getProcessedCount\<close> counts the records
  that only ever failed as well: it is never below \<open>getFailedCount\<close>, and a
  \<open>markFailed\<close> of an id not yet in the processed set raises it by one.
\<close>

theorem failed_ids_are_counted_as_processed:
  fixes calls d ok now mid d'
  defines "c \<equiv> fst (applyCalls calls (emptyCache, d))"
  shows "set (failedIds c) \<subseteq> set (processedIds c)
    \<and> getFailedCount c \<le> getProcessedCount c
    \<and> parseInt mid \<in> set (failedIds (fst (markFailed ok now mid (c, d'))))
    \<and> parseInt mid \<in> set (processedIds (fst (markFailed ok now mid (c, d'))))
    \<and> parseInt mid \<notin> set (failedIds (fst (markProcessed ok now mid (c, d'))))
    \<and> isProcessed (fst (markProcessed ok now mid (c, d'))) mid
    \<and> isProcessed (fst (markFailed ok now mid (c, d'))) mid
    \<and> (parseInt mid \<notin> set (processedIds c) \<longrightarrow>
          getProcessedCount (fst (markFailed ok now mid (c, d'))) = getProcessedCount c + 1)"
proof -
  have inv: "cacheInv c"
    unfolding c_def by (rule cacheInv_applyCalls)
  have sub: "set (failedIds c) \<subseteq> set (processedIds c)"
    using inv by (simp add: cacheInv_def)
  have cnt: "getFailedCount c \<le> getProcessedCount c"
    using inv by (rule cacheInv_counts)
  have inF: "parseInt mid \<in> set (failedIds (fst (markFailed ok now mid (c, d'))))"
    by (simp add: markFailed_sets set_setAdd)
  have inP: "parseInt mid \<in> set (processedIds (fst (markFailed ok now mid (c, d'))))"
    by (simp add: markFailed_sets set_setAdd)
  have outF: "parseInt mid \<notin> set (failedIds (fst (markProcessed ok now mid (c, d'))))"
    by (simp add: markProcessed_sets set_setDelete)
  have grow: "parseInt mid \<notin> set (processedIds c) \<longrightarrow>
          getProcessedCount (fst (markFailed ok now mid (c, d'))) = getProcessedCount c + 1"
    by (simp add: markFailed_sets getProcessedCount_def setAdd_def)
  show ?thesis
    using sub cnt inF inP outF grow isProcessed_markProcessed isProcessed_markFailed
    by blast
qed

text \<open>
  At a cache in which record 3 failed and record 4 was posted, a first failure of
  record 7 raises the processed count from 2 to 3.
\<close>

theorem failed_ids_are_counted_as_processed_witness:
  "parseInt (ascii ''7'') \<notin> set (processedIds (fst (applyCalls
       [MarkFailed True [] (ascii ''3''), MarkProcessed True [] (ascii ''4'')] (emptyCache, NoFile))))
   \<and> getProcessedCount (fst (markFailed True [] (ascii ''7'')
        (fst (applyCalls [MarkFailed True [] (ascii ''3''), MarkProcessed True [] (ascii ''4'')]
               (emptyCache, NoFile)), NoFile))) = 3"
proof -
  have h: "parseInt (ascii ''7'') \<notin> set (processedIds (fst (applyCalls
       [MarkFailed True [] (ascii ''3''), MarkProcessed True [] (ascii ''4'')] (emptyCache, NoFile))))"
    by (simp add: cache_eval)
  have n: "getProcessedCount (fst (applyCalls
       [MarkFailed True [] (ascii ''3''), MarkProcessed True [] (ascii ''4'')] (emptyCache, NoFile))) = 2"
    by (simp add: cache_eval)
  show ?thesis
    using h n failed_ids_are_counted_as_processed
      [of "[MarkFailed True [] (ascii ''3''), MarkProcessed True [] (ascii ''4'')]" NoFile
          "ascii ''7''" True "[]" NoFile]
    by simp
qed


text \<open>
  The same happens to an id with so many digits that \<open>parseInt\<close> gives \<open>Infinity\<close>,
  here 310 nines: the file holds \<open>null\<close> in its place.
\<close>

lemma parseInt_overflows: "parseInt (replicate 310 0x39) = JPosInf"
  by code_simp

lemma reload_forgets_overflowing_id:
  "isProcessed (fst (markProcessed True [] (replicate 310 0x39) (emptyCache, NoFile)))
     (replicate 310 0x39)
   \<and> \<not> isProcessed (load (snd (markProcessed True [] (replicate 310 0x39) (emptyCache, NoFile))))
         (replicate 310 0x39)"
  by (simp add: markProcessed_def isProcessed_def parseInt_overflows emptyCache_def setAdd_def
      setDelete_def setHas_def save_def newSet_def Let_def)



section \<open>The message processor\<close>

lemmas example_defs = exampleConfig_def config10_def freshDaemon_def quietEnv_def
  exampleMessage_def exampleAttachment_def exampleRow_def

lemmas processor_eval = processMessage_def extractMediaPaths_def attachmentPath_def
  isSupportedImage_def toLowerCase_def supportedImageTypes_def orElse_def optTruthy_def
  truthy_def expandHome_def validateMessage_def trim_def isWhiteSpace_def substring0_def
  truncationMarker_def ascii_def Let_def

lemma processMessage_short:
  assumes "int (length (trim (msg_text m))) \<le> tweet_maxLength config"
  shows "pm_text (processMessage config home m) = trim (msg_text m)
       \<and> \<not> wasTruncated (processMessage config home m)"
  using assms by (simp add: processMessage_def Let_def)

lemma processMessage_cut:
  assumes "int (length (trim (msg_text m))) > tweet_maxLength config"
  shows "pm_text (processMessage config home m)
           = take (nat (tweet_maxLength config - 1)) (trim (msg_text m)) @ truncationMarker
       \<and> wasTruncated (processMessage config home m)
       \<and> suffix truncationMarker (pm_text (processMessage config home m))"
  using assms by (simp add: processMessage_def Let_def substring0_def suffix_def)

text \<open>
  Whenever the text is cut, the result is longer than the limit: the cut keeps
  \<open>maxLength - 1\<close> code units and the marker adds three.
\<close>

lemma cut_text_is_longer_than_maxLength:
  assumes "int (length (trim (msg_text m))) > tweet_maxLength config"
  shows "int (length (pm_text (processMessage config home m))) > tweet_maxLength config"
proof -
  have "length (pm_text (processMessage config home m))
          = min (length (trim (msg_text m))) (nat (tweet_maxLength config - 1)) + 3"
    using processMessage_cut[OF assms, of home] by (simp add: truncationMarker_def)
  then show ?thesis using assms by (simp add: min_def)
qed

text \<open>
  C5, at the input the claim names: \<open>maxLength = 10\<close> and a text of fifteen characters.
  The claim asks for a \<open>publishText\<close> of at most ten characters. The code returns
  twelve: the first nine characters and the three code units of the marker. The rest of
  what the claim says holds there: the text ends with the marker and \<open>wasTruncated\<close>
  is set.
\<close>

theorem truncation_overruns_maxLength:
  "length (trim (msg_text message15)) = 15
   \<and> tweet_maxLength config10 = 10
   \<and> pm_text (processMessage config10 (homedir quietEnv) message15)
       = ascii ''abcdefghi'' @ truncationMarker
   \<and> length (pm_text (processMessage config10 (homedir quietEnv) message15)) = 12
   \<and> wasTruncated (processMessage config10 (homedir quietEnv) message15)"
  by (simp add: message15_def example_defs processor_eval)

lemma attachmentPath_alt:
  "attachmentPath home a = (if hasImagePath a then [resolvedPath home a] else [])"
  by (auto simp: attachmentPath_def hasImagePath_def resolvedPath_def optTruthy_def
      split: option.splits)

lemma concat_attachmentPath:
  "concat (map (attachmentPath home) xs) = map (resolvedPath home) (filter hasImagePath xs)"
  by (induction xs) (simp_all add: attachmentPath_alt)

lemma extractMediaPaths_alt:
  "extractMediaPaths home m = map (resolvedPath home) (filter hasImagePath (orEmpty (attachments m)))"
  by (cases "attachments m") (simp_all add: extractMediaPaths_def concat_attachmentPath)

lemma mediaPaths_capped:
  "mediaPaths (processMessage config home m) = cappedImagePaths home m"
  by (simp add: processMessage_def Let_def cappedImagePaths_def extractMediaPaths_alt)

section \<open>The polling loop\<close>

subsection \<open>Cache calls made through the monitor\<close>

lemma cache_markAsProcessed:
  "cache (markAsProcessed env mid st)
     = fst (markProcessed (writeFileOk env (clock st)) (isoNow env (clock st)) mid
              (cache st, cacheFileContent st))"
  by (simp add: markAsProcessed_def Let_def)

lemma cache_markAsFailed:
  "cache (markAsFailed env mid st)
     = fst (markFailed (writeFileOk env (clock st)) (isoNow env (clock st)) mid
              (cache st, cacheFileContent st))"
  by (simp add: markAsFailed_def Let_def)

lemma markAsProcessed_resolves: "isProcessed (cache (markAsProcessed env mid st)) mid"
  by (simp add: cache_markAsProcessed isProcessed_markProcessed)

lemma markAsFailed_resolves: "isProcessed (cache (markAsFailed env mid st)) mid"
  by (simp add: cache_markAsFailed isProcessed_markFailed)

lemma markAsProcessed_keeps:
  "isProcessed (cache st) x \<Longrightarrow> isProcessed (cache (markAsProcessed env mid st)) x"
  using keep_markProcessed[of "(cache st, cacheFileContent st)"] by (simp add: cache_markAsProcessed)

lemma markAsFailed_keeps:
  "isProcessed (cache st) x \<Longrightarrow> isProcessed (cache (markAsFailed env mid st)) x"
  using keep_markFailed[of "(cache st, cacheFileContent st)"] by (simp add: cache_markAsFailed)

subsection \<open>Reading event lists\<close>

lemma map_filter_Nil: "List.map_filter f [] = []"
  by (simp add: List.map_filter_def)

lemma map_filter_Cons:
  "List.map_filter f (x # xs)
     = (case f x of None \<Rightarrow> List.map_filter f xs | Some y \<Rightarrow> y # List.map_filter f xs)"
  by (simp add: List.map_filter_def split: option.splits)

lemma map_filter_append:
  "List.map_filter f (xs @ ys) = List.map_filter f xs @ List.map_filter f ys"
  by (simp add: List.map_filter_def)

lemma evlist_simps:
  "convertedPaths (xs @ ys) = convertedPaths xs @ convertedPaths ys"
  "uploadedIds (xs @ ys) = uploadedIds xs @ uploadedIds ys"
  "postedIds (xs @ ys) = postedIds xs @ postedIds ys"
  "resolvedIds (xs @ ys) = resolvedIds xs @ resolvedIds ys"
  "convertedPaths [] = []" "uploadedIds [] = []" "postedIds [] = []" "resolvedIds [] = []"
  "convertedPaths (e # xs)
     = (case convertedPath e of None \<Rightarrow> convertedPaths xs | Some y \<Rightarrow> y # convertedPaths xs)"
  "uploadedIds (e # xs)
     = (case uploadedId e of None \<Rightarrow> uploadedIds xs | Some y \<Rightarrow> y # uploadedIds xs)"
  "postedIds (e # xs)
     = (case postedId e of None \<Rightarrow> postedIds xs | Some y \<Rightarrow> y # postedIds xs)"
  "resolvedIds (e # xs)
     = (case resolvedId e of None \<Rightarrow> resolvedIds xs | Some y \<Rightarrow> y # resolvedIds xs)"
  by (simp_all add: convertedPaths_def uploadedIds_def postedIds_def resolvedIds_def
      map_filter_append map_filter_Nil map_filter_Cons split: option.splits)

lemma evlist_simps2:
  "readyPaths (xs @ ys) = readyPaths xs @ readyPaths ys"
  "uploadAttempts (xs @ ys) = uploadAttempts xs @ uploadAttempts ys"
  "postTexts (xs @ ys) = postTexts xs @ postTexts ys"
  "readyPaths [] = []" "uploadAttempts [] = []" "postTexts [] = []"
  "readyPaths (e # xs)
     = (case readyPath e of None \<Rightarrow> readyPaths xs | Some y \<Rightarrow> y # readyPaths xs)"
  "uploadAttempts (e # xs)
     = (case uploadAttempt e of None \<Rightarrow> uploadAttempts xs | Some y \<Rightarrow> y # uploadAttempts xs)"
  "postTexts (e # xs)
     = (case postText e of None \<Rightarrow> postTexts xs | Some y \<Rightarrow> y # postTexts xs)"
  by (simp_all add: readyPaths_def uploadAttempts_def postTexts_def
      map_filter_append map_filter_Nil map_filter_Cons split: option.splits)

lemma answersFrom_append:
  "answersFrom env t (xs @ ys) = (answersFrom env t xs \<and> answersFrom env (t + length xs) ys)"
  by (induction xs arbitrary: t) simp_all

lemma not_in_map: "(\<And>e. e \<in> set xs \<Longrightarrow> f e \<noteq> y) \<Longrightarrow> y \<notin> set (map f xs)"
  by auto

lemma orEmpty_media: "orEmpty (if xs = [] then None else Some xs) = xs"
  by simp

subsection \<open>The upload loop\<close>

lemma uploadAll_Nil_if:
  "(if length ps > 0 then uploadAll env rid ps t else ([], [], t)) = uploadAll env rid ps t"
  by (cases ps) simp_all

lemma uploadAll_records:
  "e \<in> set (fst (uploadAll env rid ps t)) \<Longrightarrow> eventRecord e = Some rid"
  by (induction ps arbitrary: t e) (auto simp: Let_def split: sum.splits)

lemma uploadAll_converted: "convertedPaths (fst (uploadAll env rid ps t)) = ps"
  by (induction ps arbitrary: t) (auto simp: evlist_simps Let_def split: sum.splits)

lemma uploadAll_uploaded:
  "uploadedIds (fst (uploadAll env rid ps t)) = fst (snd (uploadAll env rid ps t))"
  by (induction ps arbitrary: t) (auto simp: evlist_simps Let_def split: sum.splits)

lemma uploadAll_no_post: "postedIds (fst (uploadAll env rid ps t)) = []"
  by (induction ps arbitrary: t) (auto simp: evlist_simps Let_def split: sum.splits)

lemma uploadAll_no_mark: "resolvedIds (fst (uploadAll env rid ps t)) = []"
  by (induction ps arbitrary: t) (auto simp: evlist_simps Let_def split: sum.splits)

lemma uploadAll_no_postMedia:
  "e \<in> set (fst (uploadAll env rid ps t)) \<Longrightarrow> postMedia e = None"
  by (induction ps arbitrary: t e) (auto simp: Let_def split: sum.splits)

lemma uploadAll_postMedia: "List.map_filter postMedia (fst (uploadAll env rid ps t)) = []"
  by (induction ps arbitrary: t)
     (auto simp: map_filter_Cons map_filter_Nil Let_def split: sum.splits)

lemma uploadAll_no_EvPost: "EvPost r t m x \<notin> set (fst (uploadAll env rid ps k))"
  using uploadAll_no_postMedia[of "EvPost r t m x" env rid ps k] by auto

lemma uploadAll_attempts:
  "uploadAttempts (fst (uploadAll env rid ps t)) = readyPaths (fst (uploadAll env rid ps t))"
  by (induction ps arbitrary: t) (auto simp: evlist_simps2 Let_def split: sum.splits)

lemma uploadAll_no_postText: "postTexts (fst (uploadAll env rid ps t)) = []"
  by (induction ps arbitrary: t) (auto simp: evlist_simps2 Let_def split: sum.splits)

lemma uploadAll_no_EvMarkFailed: "EvMarkFailed r \<notin> set (fst (uploadAll env rid ps t))"
  by (induction ps arbitrary: t) (auto simp: Let_def split: sum.splits)

lemma uploadAll_clock:
  "snd (snd (uploadAll env rid ps t)) = t + length (fst (uploadAll env rid ps t))"
  by (induction ps arbitrary: t) (auto simp: Let_def split: sum.splits)

lemma uploadAll_answers: "answersFrom env t (fst (uploadAll env rid ps t))"
  by (induction ps arbitrary: t) (auto simp: Let_def split: sum.splits)

lemma uploadAll_upload_calls:
  "length (filter isUploadCall (fst (uploadAll env rid ps t))) \<le> length ps"
  by (induction ps arbitrary: t) (auto simp: Let_def le_SucI split: sum.splits)

subsection \<open>One record\<close>

text \<open>The four ways the body of the loop over the new messages can end.\<close>

lemma processRecord_cases:
  fixes env config m st
  defines "pm \<equiv> processMessage config (homedir env) m"
  defines "rid \<equiv> msg_id m"
  defines "up \<equiv> uploadAll env rid (mediaPaths pm) (clock st)"
  defines "st1 \<equiv> st\<lparr>clock := snd (snd up)\<rparr>"
  defines "media \<equiv> (if fst (snd up) = [] then None else Some (fst (snd up)))"
  shows "(\<not> validateMessage pm \<and>
            processRecord env config m st = ([EvMarkProcessed rid], markAsProcessed env rid st))
       \<or> (validateMessage pm \<and> mediaPaths pm \<noteq> [] \<and> fst (snd up) = [] \<and> pm_text pm = [] \<and>
            processRecord env config m st
              = (fst up @ [EvMarkProcessed rid], markAsProcessed env rid st1))
       \<or> (validateMessage pm \<and> (pm_text pm \<noteq> [] \<or> fst (snd up) \<noteq> []) \<and>
            (\<exists>tweetId. postTweet env (clock st1) (pm_text pm) media = Inr tweetId \<and>
               processRecord env config m st
                 = (fst up @ [EvPost rid (pm_text pm) media (Inr tweetId), EvMarkProcessed rid],
                    (markAsProcessed env rid (st1\<lparr>clock := clock st1 + 1\<rparr>))
                      \<lparr>consecutiveErrors := 0\<rparr>)))
       \<or> (validateMessage pm \<and> (pm_text pm \<noteq> [] \<or> fst (snd up) \<noteq> []) \<and>
            (\<exists>e. postTweet env (clock st1) (pm_text pm) media = Inl e \<and>
               processRecord env config m st
                 = (fst up @ [EvPost rid (pm_text pm) media (Inl e), EvMarkFailed rid],
                    markAsFailed env rid (st1\<lparr>clock := clock st1 + 1\<rparr>))))"
  unfolding processRecord_def uploadAll_Nil_if pm_def rid_def up_def st1_def media_def Let_def
    truthy_def validateMessage_def
  by (auto split: sum.splits)

lemma processRecord_records:
  "e \<in> set (fst (processRecord env config m st)) \<Longrightarrow> eventRecord e = Some (msg_id m)"
  using processRecord_cases[of config env m st]
  by (auto dest: uploadAll_records)

lemma processRecord_resolves:
  "isProcessed (cache (snd (processRecord env config m st))) (msg_id m)"
  using processRecord_cases[of config env m st]
  by (auto simp: markAsProcessed_resolves markAsFailed_resolves cache_markAsProcessed
      isProcessed_markProcessed)

lemma processRecord_keeps:
  "isProcessed (cache st) x \<Longrightarrow> isProcessed (cache (snd (processRecord env config m st))) x"
  using processRecord_cases[of config env m st]
    markAsProcessed_keeps[of "st\<lparr>clock := k\<rparr>" x env "msg_id m" for k]
    markAsFailed_keeps[of "st\<lparr>clock := k\<rparr>" x env "msg_id m" for k]
    markAsProcessed_keeps[of st x env "msg_id m"]
  by (auto simp: cache_markAsProcessed)

lemma processRecord_converted:
  "convertedPaths (fst (processRecord env config m st))
     = mediaPaths (processMessage config (homedir env) m)"
  using processRecord_cases[of config env m st]
  by (auto simp: evlist_simps uploadAll_converted validateMessage_def)

lemma processRecord_upload_calls:
  "length (filter isUploadCall (fst (processRecord env config m st)))
     \<le> length (mediaPaths (processMessage config (homedir env) m))"
  using processRecord_cases[of config env m st]
    uploadAll_upload_calls[of env "msg_id m" "mediaPaths (processMessage config (homedir env) m)"
      "clock st"]
  by auto

lemma processRecord_resolved: "resolvedIds (fst (processRecord env config m st)) = [msg_id m]"
  using processRecord_cases[of config env m st]
  by (auto simp: evlist_simps uploadAll_no_mark)

lemma processRecord_posted:
  "postedIds (fst (processRecord env config m st)) = []
   \<or> postedIds (fst (processRecord env config m st)) = [msg_id m]"
  using processRecord_cases[of config env m st]
  by (auto simp: evlist_simps uploadAll_no_post)

lemma processRecord_postMedia:
  "List.map_filter postMedia (fst (processRecord env config m st)) = []
     \<and> uploadedIds (fst (processRecord env config m st)) = []
   \<or> List.map_filter postMedia (fst (processRecord env config m st))
        = [uploadedIds (fst (processRecord env config m st))]"
  using processRecord_cases[of config env m st]
  by (auto simp: evlist_simps uploadAll_uploaded uploadAll_postMedia map_filter_append
      map_filter_Cons map_filter_Nil orEmpty_media)

lemma processRecord_attempts:
  "uploadAttempts (fst (processRecord env config m st))
     = readyPaths (fst (processRecord env config m st))"
  using processRecord_cases[of config env m st]
  by (auto simp: evlist_simps2 uploadAll_attempts)

lemma processRecord_answers:
  "answersFrom env (clock st) (fst (processRecord env config m st))"
  using processRecord_cases[of config env m st]
  by (auto simp: answersFrom_append uploadAll_answers uploadAll_clock[symmetric])

lemma processRecord_posts_text_or_media:
  "pm_text (processMessage config (homedir env) m) \<noteq> []
     \<or> uploadedIds (fst (processRecord env config m st)) \<noteq> []
   \<Longrightarrow> List.map_filter postMedia (fst (processRecord env config m st))
         = [uploadedIds (fst (processRecord env config m st))]"
  using processRecord_cases[of config env m st]
  by (auto simp: evlist_simps uploadAll_uploaded uploadAll_postMedia map_filter_append
      map_filter_Cons map_filter_Nil orEmpty_media validateMessage_def truthy_def)

lemma processRecord_skips_nothing_to_post:
  "pm_text (processMessage config (homedir env) m) = []
   \<Longrightarrow> uploadedIds (fst (processRecord env config m st)) = []
   \<Longrightarrow> List.map_filter postMedia (fst (processRecord env config m st)) = []"
  using processRecord_cases[of config env m st]
  by (auto simp: evlist_simps uploadAll_uploaded uploadAll_postMedia map_filter_append
      map_filter_Cons map_filter_Nil)

lemma processRecord_postTexts:
  "postTexts (fst (processRecord env config m st)) = []
   \<or> postTexts (fst (processRecord env config m st))
        = [pm_text (processMessage config (homedir env) m)]"
  using processRecord_cases[of config env m st]
  by (auto simp: evlist_simps2 uploadAll_no_postText)

lemma processRecord_failed_iff:
  "EvMarkFailed (msg_id m) \<in> set (fst (processRecord env config m st))
   \<longleftrightarrow> (\<exists>x media err. EvPost (msg_id m) x media (Inl err)
                          \<in> set (fst (processRecord env config m st)))"
  using processRecord_cases[of config env m st]
  by (auto simp: uploadAll_no_EvMarkFailed uploadAll_no_EvPost)

subsection \<open>One batch, one cycle, the loop\<close>

lemma processAll_records:
  "e \<in> set (fst (processAll env config ms st)) \<Longrightarrow> eventRecord e \<in> Some ` msg_id ` set ms"
  by (induction ms arbitrary: st) (auto simp: Let_def dest: processRecord_records)

lemma processAll_keeps:
  "isProcessed (cache st) x \<Longrightarrow> isProcessed (cache (snd (processAll env config ms st))) x"
  by (induction ms arbitrary: st) (auto simp: Let_def processRecord_keeps)

lemma processAll_resolved: "resolvedIds (fst (processAll env config ms st)) = map msg_id ms"
  by (induction ms arbitrary: st) (simp_all add: Let_def evlist_simps processRecord_resolved)

lemma processAll_posted: "subseq (postedIds (fst (processAll env config ms st))) (map msg_id ms)"
proof (induction ms arbitrary: st)
  case Nil
  then show ?case by (simp add: evlist_simps)
next
  case (Cons m ms)
  have rest: "subseq (postedIds (fst (processAll env config ms (snd (processRecord env config m st)))))
                (map msg_id ms)"
    by (rule Cons.IH)
  from processRecord_posted[of env config m st] show ?case
  proof
    assume "postedIds (fst (processRecord env config m st)) = []"
    then show ?thesis using list_emb_Cons[OF rest] by (simp add: Let_def evlist_simps)
  next
    assume "postedIds (fst (processRecord env config m st)) = [msg_id m]"
    then show ?thesis using rest by (simp add: Let_def evlist_simps)
  qed
qed

lemma filterNew_unresolved:
  "m \<in> set (fst (filterNew env c rows t)) \<Longrightarrow> \<not> isProcessed c (msg_id m)"
  by (induction rows arbitrary: t) (auto simp: Let_def toMessage_def split: if_splits)

lemma filterNew_ids:
  "map msg_id (fst (filterNew env c rows t))
     = map (\<lambda>r. toString (ROWID r)) (filter (\<lambda>r. \<not> isProcessed c (toString (ROWID r))) rows)"
  by (induction rows arbitrary: t) (auto simp: Let_def toMessage_def)

text \<open>\<open>getNewMessages\<close> never throws: whatever the query does, the caller gets an array.\<close>

lemma getNewMessages_Inr: "\<exists>batch. fst (getNewMessages env st) = Inr batch"
  by (auto simp: getNewMessages_def Let_def split: sum.splits)

lemma getNewMessages_cache: "cache (snd (getNewMessages env st)) = cache st"
  by (auto simp: getNewMessages_def Let_def split: sum.splits)

lemma getNewMessages_unresolved:
  "fst (getNewMessages env st) = Inr batch \<Longrightarrow> m \<in> set batch
     \<Longrightarrow> \<not> isProcessed (cache st) (msg_id m)"
  by (auto simp: getNewMessages_def Let_def split: sum.splits if_splits
      dest: filterNew_unresolved)

text \<open>
  Every id in a batch is the decimal form of a row id, so \<open>parseInt\<close> reads it back as
  a finite number when the row ids are below \<open>2^53\<close> in magnitude.
\<close>

lemma filterNew_numeric:
  "\<forall>r \<in> set rows. \<bar>ROWID r\<bar> < 9007199254740992 \<Longrightarrow> m \<in> set (fst (filterNew env c rows t))
     \<Longrightarrow> \<exists>i. parseInt (msg_id m) = JNum i"
  by (induction rows arbitrary: t)
     (auto simp: Let_def toMessage_def parseInt_toString split: if_splits)

lemma fetched_ids_are_numeric:
  "queryMessages env (clock st) = Inr rows \<Longrightarrow> \<forall>r \<in> set rows. \<bar>ROWID r\<bar> < 9007199254740992
     \<Longrightarrow> fst (getNewMessages env st) = Inr batch \<Longrightarrow> m \<in> set batch
     \<Longrightarrow> \<exists>i. parseInt (msg_id m) = JNum i"
  by (auto simp: getNewMessages_def Let_def split: if_splits dest: filterNew_numeric)

lemma mainCycle_Inr:
  "fst (getNewMessages env st) = Inr batch \<Longrightarrow>
   mainCycle env config st
     = (fst (processAll env config batch (snd (getNewMessages env st)))
          @ [EvSleep (polling_interval config)],
        snd (processAll env config batch (snd (getNewMessages env st))))"
  by (simp add: mainCycle_def Let_def)

lemma mainCycle_keeps:
  assumes "isProcessed (cache st) x"
  shows "isProcessed (cache (snd (mainCycle env config st))) x"
proof -
  obtain batch where b: "fst (getNewMessages env st) = Inr batch"
    using getNewMessages_Inr by blast
  show ?thesis
    using assms by (simp add: mainCycle_Inr[OF b] processAll_keeps getNewMessages_cache)
qed

lemma mainLoop_keeps:
  "isProcessed (cache st) x \<Longrightarrow> isProcessed (cache (snd (mainLoop env config n st))) x"
  by (induction n arbitrary: st) (auto simp: Let_def mainCycle_keeps)

lemma mainCycle_skips_resolved:
  assumes "isProcessed (cache st) rid" and "e \<in> set (fst (mainCycle env config st))"
  shows "eventRecord e \<noteq> Some rid"
proof -
  obtain batch where b: "fst (getNewMessages env st) = Inr batch"
    using getNewMessages_Inr by blast
  from assms(2)
  have "e \<in> set (fst (processAll env config batch (snd (getNewMessages env st))))
        \<or> e = EvSleep (polling_interval config)"
    by (auto simp: mainCycle_Inr[OF b])
  then show ?thesis
  proof
    assume "e \<in> set (fst (processAll env config batch (snd (getNewMessages env st))))"
    then obtain m where "m \<in> set batch" "eventRecord e = Some (msg_id m)"
      using processAll_records by blast
    then show ?thesis using getNewMessages_unresolved[OF b] assms(1) by auto
  next
    assume "e = EvSleep (polling_interval config)"
    then show ?thesis by simp
  qed
qed

lemma mainLoop_skips_resolved:
  "isProcessed (cache st) rid \<Longrightarrow> e \<in> set (fst (mainLoop env config n st))
     \<Longrightarrow> eventRecord e \<noteq> Some rid"
proof (induction n arbitrary: st)
  case 0
  then show ?case by simp
next
  case (Suc n)
  show ?case
  proof (cases "isShuttingDown st")
    case True
    then show ?thesis using Suc.prems by simp
  next
    case False
    then have "e \<in> set (fst (mainCycle env config st))
               \<or> e \<in> set (fst (mainLoop env config n (snd (mainCycle env config st))))"
      using Suc.prems(2) by (auto simp: Let_def)
    then show ?thesis
      using mainCycle_skips_resolved[OF Suc.prems(1)]
        Suc.IH[OF mainCycle_keeps[OF Suc.prems(1)]] by blast
  qed
qed

lemma failing_cycle:
  assumes "dbReady st" and "\<forall>t. \<exists>e. queryMessages env t = Inl e"
  shows "mainCycle env config st
           = ([EvSleep (polling_interval config)], st\<lparr>clock := clock st + 1\<rparr>)"
proof -
  obtain e where "queryMessages env (clock st) = Inl e" using assms(2) by blast
  then show ?thesis using assms(1) by (simp add: mainCycle_def getNewMessages_def Let_def)
qed

section \<open>The claims about the pipeline\<close>

text \<open>
  C1. For every record id that the cache already holds (\<open>isProcessed\<close> is true for it),
  a poll cycle never calls the Publisher for it, whatever the query returns:
  \<open>getNewMessages\<close> leaves every such record out of the batch, and no call of the cycle
  (convert, upload, post or mark) carries that id; the same holds for any number of
  cycles in a row.
\<close>

theorem resolved_record_is_skipped:
  assumes "isProcessed (cache st) rid" and "fst (getNewMessages env st) = Inr batch"
  shows "rid \<notin> set (map msg_id batch)
       \<and> Some rid \<notin> set (map eventRecord (fst (mainCycle env config st)))
       \<and> Some rid \<notin> set (map eventRecord (fst (mainLoop env config n st)))"
proof -
  have a: "rid \<notin> set (map msg_id batch)"
    using getNewMessages_unresolved[OF assms(2)] assms(1) by auto
  have b: "Some rid \<notin> set (map eventRecord (fst (mainCycle env config st)))"
    by (rule not_in_map) (rule mainCycle_skips_resolved[OF assms(1)])
  have c: "Some rid \<notin> set (map eventRecord (fst (mainLoop env config n st)))"
    by (rule not_in_map) (rule mainLoop_skips_resolved[OF assms(1)])
  show ?thesis using a b c by simp
qed

text \<open>The query returns row 7 again, the cache holds 7: the batch is empty.\<close>

theorem resolved_record_is_skipped_witness:
  "isProcessed (cache resolvedDaemon) (toString 7)
   \<and> fst (getNewMessages refetchEnv resolvedDaemon) = Inr []
   \<and> Some (toString 7)
        \<notin> set (map eventRecord (fst (mainCycle refetchEnv exampleConfig resolvedDaemon)))"
proof -
  have h1: "isProcessed (cache resolvedDaemon) (toString 7)"
    by code_simp
  have h2: "fst (getNewMessages refetchEnv resolvedDaemon) = Inr []"
    by code_simp
  show ?thesis
    using h1 h2 resolved_record_is_skipped [OF h1 h2, of exampleConfig 1] by simp
qed

text \<open>
  C2. Whenever the post call for a record throws, the next thing the loop does is
  \<open>markAsFailed\<close> on that record's id; from then on \<open>isProcessed\<close> is true for the id,
  through the rest of the batch and through any number of later cycles in any
  environment, and none of those cycles makes any call for the record.
\<close>

theorem failed_post_is_never_retried:
  assumes "EvPost (msg_id m) t media (Inl err) \<in> set (fst (processRecord env config m st))"
  shows "(\<exists>pre. fst (processRecord env config m st)
                  = pre @ [EvPost (msg_id m) t media (Inl err), EvMarkFailed (msg_id m)])
       \<and> isProcessed (cache (snd (processRecord env config m st))) (msg_id m)
       \<and> isProcessed (cache (snd (mainLoop env' config' n
             (snd (processAll env config rest (snd (processRecord env config m st)))))))
           (msg_id m)
       \<and> Some (msg_id m) \<notin> set (map eventRecord (fst (mainLoop env' config' n
             (snd (processAll env config rest (snd (processRecord env config m st)))))))"
proof -
  let ?r = "processRecord env config m st"
  have res: "isProcessed (cache (snd ?r)) (msg_id m)"
    by (rule processRecord_resolves)
  have res2: "isProcessed (cache (snd (processAll env config rest (snd ?r)))) (msg_id m)"
    using res by (rule processAll_keeps)
  have a: "\<exists>pre. fst ?r = pre @ [EvPost (msg_id m) t media (Inl err), EvMarkFailed (msg_id m)]"
    using processRecord_cases[of config env m st] assms
    by (auto simp: uploadAll_no_EvPost)
  have c: "Some (msg_id m) \<notin> set (map eventRecord (fst (mainLoop env' config' n
             (snd (processAll env config rest (snd ?r))))))"
    by (rule not_in_map) (rule mainLoop_skips_resolved[OF res2])
  show ?thesis using a res mainLoop_keeps[OF res2] c by blast
qed

text \<open>Row 9 is fetched, its post throws; three more cycles fetch row 9 again.\<close>

theorem failed_post_is_never_retried_witness:
  "EvPost (msg_id (toMessage (exampleRow 9 100 ''hello'') [])) (ascii ''hello'') None
       (Inl (Error (ascii ''Tweet posting failed'')))
     \<in> set (fst (processRecord postFails exampleConfig (toMessage (exampleRow 9 100 ''hello'') [])
                   freshDaemon))
   \<and> isProcessed (cache (snd (processRecord postFails exampleConfig
          (toMessage (exampleRow 9 100 ''hello'') []) freshDaemon)))
        (msg_id (toMessage (exampleRow 9 100 ''hello'') []))
   \<and> Some (msg_id (toMessage (exampleRow 9 100 ''hello'') []))
        \<notin> set (map eventRecord (fst (mainLoop postFails exampleConfig 3
             (snd (processAll postFails exampleConfig []
                (snd (processRecord postFails exampleConfig
                   (toMessage (exampleRow 9 100 ''hello'') []) freshDaemon)))))))"
proof -
  have h: "EvPost (msg_id (toMessage (exampleRow 9 100 ''hello'') [])) (ascii ''hello'') None
       (Inl (Error (ascii ''Tweet posting failed'')))
     \<in> set (fst (processRecord postFails exampleConfig (toMessage (exampleRow 9 100 ''hello'') [])
                   freshDaemon))"
    by code_simp
  show ?thesis
    using h failed_post_is_never_retried [OF h, of postFails exampleConfig 3 "[]"] by simp
qed

text \<open>
  C3, as the claim states it, fails: the query returns the newer row 2 before the
  older row 1, and the loop posts 2 first and 1 second.
\<close>

theorem newer_record_is_posted_first:
  "row_date (exampleRow 1 100 ''older'') < row_date (exampleRow 2 200 ''newer'')
   \<and> queryMessages twoRows 0 = Inr [exampleRow 2 200 ''newer'', exampleRow 1 100 ''older'']
   \<and> postedIds (fst (mainCycle twoRows exampleConfig freshDaemon)) = [toString 2, toString 1]"
  by code_simp

text \<open>
  C3, amended. Within one fetched batch the unresolved records are processed in the
  order in which the fetch step returns them, with no reversal: the ids resolved by a
  cycle are, in order, the ids of the fetched rows that the cache does not hold, and
  the ids posted are a subsequence of them. As the fetch is newest-first, of two
  unresolved records of a batch the newer one reaches the Publisher first.
\<close>

theorem records_are_processed_in_fetch_order:
  assumes "dbReady st" and "queryMessages env (clock st) = Inr rows"
  shows "resolvedIds (fst (mainCycle env config st))
           = map (\<lambda>r. toString (ROWID r))
               (filter (\<lambda>r. \<not> isProcessed (cache st) (toString (ROWID r))) rows)
       \<and> subseq (postedIds (fst (mainCycle env config st)))
           (map (\<lambda>r. toString (ROWID r))
              (filter (\<lambda>r. \<not> isProcessed (cache st) (toString (ROWID r))) rows))"
proof -
  let ?ids = "map (\<lambda>r. toString (ROWID r))
                (filter (\<lambda>r. \<not> isProcessed (cache st) (toString (ROWID r))) rows)"
  obtain b where g: "fst (getNewMessages env st) = Inr b" and ids: "map msg_id b = ?ids"
    using assms by (simp add: getNewMessages_def Let_def filterNew_ids)
  have r: "resolvedIds (fst (mainCycle env config st)) = map msg_id b"
    by (simp add: mainCycle_Inr[OF g] evlist_simps processAll_resolved)
  have p: "subseq (postedIds (fst (mainCycle env config st))) (map msg_id b)"
    by (simp add: mainCycle_Inr[OF g] evlist_simps processAll_posted)
  show ?thesis using r p unfolding ids by simp
qed

theorem records_are_processed_in_fetch_order_witness:
  "dbReady freshDaemon
   \<and> queryMessages twoRows (clock freshDaemon)
       = Inr [exampleRow 2 200 ''newer'', exampleRow 1 100 ''older'']
   \<and> resolvedIds (fst (mainCycle twoRows exampleConfig freshDaemon)) = [toString 2, toString 1]"
proof -
  have h1: "dbReady freshDaemon"
    by (simp add: freshDaemon_def)
  have h2: "queryMessages twoRows (clock freshDaemon)
              = Inr [exampleRow 2 200 ''newer'', exampleRow 1 100 ''older'']"
    by (simp add: twoRows_def quietEnv_def)
  have e: "map (\<lambda>r. toString (ROWID r))
             (filter (\<lambda>r. \<not> isProcessed (cache freshDaemon) (toString (ROWID r)))
                [exampleRow 2 200 ''newer'', exampleRow 1 100 ''older''])
           = [toString 2, toString 1]"
    by code_simp
  show ?thesis
    using h1 h2 records_are_processed_in_fetch_order [OF h1 h2, of exampleConfig]
    unfolding e by simp
qed

text \<open>
  C4. The claim asks for a shutdown after five poll cycles in a row whose fetch fails,
  and for a doubled sleep after each such failure. In the code a failing query never
  reaches the loop: \<open>getNewMessages\<close> catches it and returns an empty batch, so however
  many cycles run against a source whose query always throws, each of them sleeps the
  plain interval, the error counter stays where it was and the daemon is never shut
  down.
\<close>

theorem fetch_failures_never_shut_down:
  assumes "dbReady st" and "\<not> isShuttingDown st" and "\<forall>t. \<exists>e. queryMessages env t = Inl e"
  shows "mainLoop env config n st
           = (replicate n (EvSleep (polling_interval config)), st\<lparr>clock := clock st + n\<rparr>)"
  using assms(1,2)
proof (induction n arbitrary: st)
  case 0
  then show ?case by simp
next
  case (Suc n)
  have c: "mainCycle env config st
             = ([EvSleep (polling_interval config)], st\<lparr>clock := clock st + 1\<rparr>)"
    using Suc.prems(1) assms(3) by (rule failing_cycle)
  have "mainLoop env config n (st\<lparr>clock := clock st + 1\<rparr>)
          = (replicate n (EvSleep (polling_interval config)), st\<lparr>clock := clock st + 1 + n\<rparr>)"
    using Suc.IH[of "st\<lparr>clock := clock st + 1\<rparr>"] Suc.prems by simp
  then show ?case using Suc.prems(2) c by (simp add: Let_def)
qed

text \<open>Five cycles against a source whose query always throws.\<close>

theorem fetch_failures_never_shut_down_witness:
  "dbReady freshDaemon \<and> \<not> isShuttingDown freshDaemon
   \<and> (\<forall>t. \<exists>e. queryMessages brokenSource t = Inl e)
   \<and> mainLoop brokenSource exampleConfig 5 freshDaemon
       = (replicate 5 (EvSleep 3000), freshDaemon\<lparr>clock := 5\<rparr>)
   \<and> \<not> isShuttingDown (snd (mainLoop brokenSource exampleConfig 5 freshDaemon))
   \<and> consecutiveErrors (snd (mainLoop brokenSource exampleConfig 5 freshDaemon)) = 0"
proof -
  have h1: "dbReady freshDaemon" and h2: "\<not> isShuttingDown freshDaemon"
    by (simp_all add: freshDaemon_def)
  have h3: "\<forall>t. \<exists>e. queryMessages brokenSource t = Inl e"
    by (simp add: brokenSource_def quietEnv_def)
  show ?thesis
    using h1 h2 h3 fetch_failures_never_shut_down [OF h1 h2 h3, of exampleConfig 5]
    by (simp add: freshDaemon_def exampleConfig_def)
qed

text \<open>
  C6, as the claim states it, fails: a record with six attachments that are not
  images has six attachments with paths, and its \<open>mediaPaths\<close> is empty, not of
  length four.
\<close>

theorem six_attachments_no_media_path:
  "length (orEmpty (attachments sixVideos)) = 6
   \<and> mediaPaths (processMessage exampleConfig (homedir quietEnv) sixVideos) = []"
  by (simp add: sixVideos_def example_defs processor_eval)

text \<open>
  C6, amended. For every record, \<open>mediaPaths\<close> consists of the paths (leading tilde
  expanded) of those attachments that have a supported image type and a non-empty file
  name or transfer name, in source order, capped to the first four. The loop hands
  exactly these paths to the converter, so an attachment beyond the cap is never
  converted or uploaded, and there are at most as many upload calls as paths. A record
  with at least four such attachments, six for one, has exactly four media paths.
\<close>

theorem media_paths_are_first_four_images:
  "mediaPaths (processMessage config (homedir env) m) = cappedImagePaths (homedir env) m
   \<and> length (mediaPaths (processMessage config (homedir env) m)) \<le> 4
   \<and> convertedPaths (fst (processRecord env config m st))
       = mediaPaths (processMessage config (homedir env) m)
   \<and> length (filter isUploadCall (fst (processRecord env config m st)))
       \<le> length (mediaPaths (processMessage config (homedir env) m))
   \<and> (4 \<le> length (filter hasImagePath (orEmpty (attachments m))) \<longrightarrow>
        length (mediaPaths (processMessage config (homedir env) m)) = 4)"
proof -
  have a: "mediaPaths (processMessage config (homedir env) m) = cappedImagePaths (homedir env) m"
    by (rule mediaPaths_capped)
  have b: "length (cappedImagePaths (homedir env) m) \<le> 4"
    by (simp add: cappedImagePaths_def)
  have c: "4 \<le> length (filter hasImagePath (orEmpty (attachments m))) \<longrightarrow>
             length (cappedImagePaths (homedir env) m) = 4"
    by (simp add: cappedImagePaths_def)
  show ?thesis
    using a b c processRecord_converted[of env config m st]
      processRecord_upload_calls[of env config m st]
    by simp
qed

text \<open>Six JPEG attachments: four media paths.\<close>

theorem media_paths_are_first_four_images_witness:
  "4 \<le> length (filter hasImagePath (orEmpty (attachments sixImages)))
   \<and> length (mediaPaths (processMessage exampleConfig (homedir quietEnv) sixImages)) = 4
   \<and> mediaPaths (processMessage exampleConfig (homedir quietEnv) sixImages)
       = [ascii ''/p1.jpg'', ascii ''/p2.jpg'', ascii ''/p3.jpg'', ascii ''/p4.jpg'']"
proof -
  have h: "4 \<le> length (filter hasImagePath (orEmpty (attachments sixImages)))"
    by (simp add: sixImages_def example_defs hasImagePath_def processor_eval)
  have v: "cappedImagePaths (homedir quietEnv) sixImages
             = [ascii ''/p1.jpg'', ascii ''/p2.jpg'', ascii ''/p3.jpg'', ascii ''/p4.jpg'']"
    by (simp add: sixImages_def example_defs hasImagePath_def resolvedPath_def
        cappedImagePaths_def processor_eval)
  show ?thesis
    using h v media_paths_are_first_four_images [of exampleConfig quietEnv sixImages freshDaemon]
    by simp
qed

text \<open>
  C7. For every record whose processed form has empty text and no media path,
  \<open>validateMessage\<close> returns false and the loop does exactly one thing for the record,
  a single \<open>markAsProcessed\<close>: no convert, upload or post call is made. The id is then
  resolved, and no later cycle makes any call for it.
\<close>

theorem empty_record_is_skipped_once:
  assumes "pm_text (processMessage config (homedir env) m) = []"
      and "mediaPaths (processMessage config (homedir env) m) = []"
  shows "\<not> validateMessage (processMessage config (homedir env) m)
       \<and> fst (processRecord env config m st) = [EvMarkProcessed (msg_id m)]
       \<and> isProcessed (cache (snd (processRecord env config m st))) (msg_id m)
       \<and> Some (msg_id m) \<notin> set (map eventRecord
            (fst (mainLoop env' config' n (snd (processRecord env config m st)))))"
proof -
  have v: "\<not> validateMessage (processMessage config (homedir env) m)"
    using assms by (simp add: validateMessage_def truthy_def)
  have e: "fst (processRecord env config m st) = [EvMarkProcessed (msg_id m)]"
    using v by (simp add: processRecord_def Let_def)
  have r: "isProcessed (cache (snd (processRecord env config m st))) (msg_id m)"
    by (rule processRecord_resolves)
  have l: "Some (msg_id m) \<notin> set (map eventRecord
            (fst (mainLoop env' config' n (snd (processRecord env config m st)))))"
    by (rule not_in_map) (rule mainLoop_skips_resolved[OF r])
  show ?thesis using v e r l by simp
qed

text \<open>A message of three blanks and no attachment.\<close>

theorem empty_record_is_skipped_once_witness:
  "pm_text (processMessage exampleConfig (homedir quietEnv) blankMessage) = []
   \<and> mediaPaths (processMessage exampleConfig (homedir quietEnv) blankMessage) = []
   \<and> fst (processRecord quietEnv exampleConfig blankMessage freshDaemon)
       = [EvMarkProcessed (ascii ''5'')]
   \<and> isProcessed (cache (snd (processRecord quietEnv exampleConfig blankMessage freshDaemon)))
        (ascii ''5'')"
proof -
  have h1: "pm_text (processMessage exampleConfig (homedir quietEnv) blankMessage) = []"
    by (simp add: blankMessage_def example_defs processor_eval)
  have h2: "mediaPaths (processMessage exampleConfig (homedir quietEnv) blankMessage) = []"
    by (simp add: blankMessage_def example_defs processor_eval)
  have i: "msg_id blankMessage = ascii ''5''"
    by (simp add: blankMessage_def exampleMessage_def)
  show ?thesis
    using h1 h2 empty_record_is_skipped_once [OF h1 h2, of freshDaemon quietEnv exampleConfig 1]
    unfolding i by simp
qed

text \<open>
  C8. For every record, each media path is handled on its own. All of the paths are
  handed to the converter, whatever happened to the ones before; every path that the
  converter returned is handed to \<open>uploadMedia\<close>, and nothing else is; and the result
  recorded for each of these calls is what the environment answers to it, so a failure
  of one call changes nothing about the others. A failure only leaves that attachment
  out of the collected ids: the post call is made whenever the record has text or at
  least one upload succeeded, it is made once, with the record's text and with exactly
  the ids of the uploads that succeeded, in order; only a record with no text and no
  successful upload is not posted. Afterwards the record is resolved in every case,
  by exactly one cache call, which is \<open>markAsFailed\<close> exactly when the post threw.
\<close>

theorem failed_upload_only_shrinks_media:
  "convertedPaths (fst (processRecord env config m st))
     = mediaPaths (processMessage config (homedir env) m)
   \<and> uploadAttempts (fst (processRecord env config m st))
       = readyPaths (fst (processRecord env config m st))
   \<and> answersFrom env (clock st) (fst (processRecord env config m st))
   \<and> (List.map_filter postMedia (fst (processRecord env config m st)) = []
        \<or> List.map_filter postMedia (fst (processRecord env config m st))
             = [uploadedIds (fst (processRecord env config m st))])
   \<and> (uploadedIds (fst (processRecord env config m st)) \<noteq> [] \<longrightarrow>
        List.map_filter postMedia (fst (processRecord env config m st))
          = [uploadedIds (fst (processRecord env config m st))])
   \<and> (pm_text (processMessage config (homedir env) m) \<noteq> [] \<longrightarrow>
        List.map_filter postMedia (fst (processRecord env config m st))
          = [uploadedIds (fst (processRecord env config m st))])
   \<and> (pm_text (processMessage config (homedir env) m) = []
        \<and> uploadedIds (fst (processRecord env config m st)) = [] \<longrightarrow>
        List.map_filter postMedia (fst (processRecord env config m st)) = [])
   \<and> (postTexts (fst (processRecord env config m st)) = []
        \<or> postTexts (fst (processRecord env config m st))
             = [pm_text (processMessage config (homedir env) m)])
   \<and> resolvedIds (fst (processRecord env config m st)) = [msg_id m]
   \<and> (EvMarkFailed (msg_id m) \<in> set (fst (processRecord env config m st))
        \<longleftrightarrow> (\<exists>x media err. EvPost (msg_id m) x media (Inl err)
                              \<in> set (fst (processRecord env config m st))))
   \<and> isProcessed (cache (snd (processRecord env config m st))) (msg_id m)"
proof -
  let ?evs = "fst (processRecord env config m st)"
  let ?pm = "processMessage config (homedir env) m"
  have a: "convertedPaths ?evs = mediaPaths ?pm"
    by (rule processRecord_converted)
  have b: "uploadAttempts ?evs = readyPaths ?evs"
    by (rule processRecord_attempts)
  have c: "answersFrom env (clock st) ?evs"
    by (rule processRecord_answers)
  have d: "List.map_filter postMedia ?evs = [] \<or> List.map_filter postMedia ?evs = [uploadedIds ?evs]"
    using processRecord_postMedia[of env config m st] by blast
  have e: "uploadedIds ?evs \<noteq> [] \<longrightarrow> List.map_filter postMedia ?evs = [uploadedIds ?evs]"
    using processRecord_posts_text_or_media[of config env m st] by blast
  have f: "pm_text ?pm \<noteq> [] \<longrightarrow> List.map_filter postMedia ?evs = [uploadedIds ?evs]"
    using processRecord_posts_text_or_media[of config env m st] by blast
  have g: "pm_text ?pm = [] \<and> uploadedIds ?evs = [] \<longrightarrow> List.map_filter postMedia ?evs = []"
    using processRecord_skips_nothing_to_post[of config env m st] by blast
  have h: "postTexts ?evs = [] \<or> postTexts ?evs = [pm_text ?pm]"
    by (rule processRecord_postTexts)
  have i: "resolvedIds ?evs = [msg_id m]"
    by (rule processRecord_resolved)
  have j: "EvMarkFailed (msg_id m) \<in> set ?evs
           \<longleftrightarrow> (\<exists>x media err. EvPost (msg_id m) x media (Inl err) \<in> set ?evs)"
    by (rule processRecord_failed_iff)
  have k: "isProcessed (cache (snd (processRecord env config m st))) (msg_id m)"
    by (rule processRecord_resolves)
  from a b c d e f g h i j k show ?thesis
    by (intro conjI)
qed

text \<open>
  Four runs, each from clock 0.
  Three images with the text \<open>hi\<close>, the second upload throws: all three converted
  paths are handed to \<open>uploadMedia\<close>, the post call carries the two other media ids,
  and the record is resolved.
  The same record, the first conversion throws: the two other images are still
  converted and uploaded, and the post carries them.
  One image with the text \<open>hi\<close>, its upload throws: the record is still posted, with
  no media.
  One image with no text, its upload throws: there is nothing to post, and no post
  call is made.
\<close>

theorem failed_upload_only_shrinks_media_witness:
  "length (mediaPaths (processMessage exampleConfig (homedir secondUploadFails) threeImages)) = 3
   \<and> pm_text (processMessage exampleConfig (homedir secondUploadFails) threeImages) \<noteq> []
   \<and> uploadAttempts (fst (processRecord secondUploadFails exampleConfig threeImages freshDaemon))
       = [ascii ''/a.jpg'', ascii ''/Users/me/b.PNG'', ascii ''/c.gif'']
   \<and> uploadedIds (fst (processRecord secondUploadFails exampleConfig threeImages freshDaemon))
       = [ascii ''/a.jpg'', ascii ''/c.gif'']
   \<and> List.map_filter postMedia
        (fst (processRecord secondUploadFails exampleConfig threeImages freshDaemon))
       = [[ascii ''/a.jpg'', ascii ''/c.gif'']]
   \<and> isProcessed (cache (snd (processRecord secondUploadFails exampleConfig threeImages
          freshDaemon))) (msg_id threeImages)
   \<and> uploadAttempts (fst (processRecord firstConversionFails exampleConfig threeImages freshDaemon))
       = [ascii ''/Users/me/b.PNG'', ascii ''/c.gif'']
   \<and> List.map_filter postMedia
        (fst (processRecord firstConversionFails exampleConfig threeImages freshDaemon))
       = [[ascii ''/Users/me/b.PNG'', ascii ''/c.gif'']]
   \<and> pm_text (processMessage exampleConfig (homedir everyUploadFails) oneImage) \<noteq> []
   \<and> List.map_filter postMedia
        (fst (processRecord everyUploadFails exampleConfig oneImage freshDaemon)) = [[]]
   \<and> pm_text (processMessage exampleConfig (homedir everyUploadFails) imageOnly) = []
   \<and> uploadedIds (fst (processRecord everyUploadFails exampleConfig imageOnly freshDaemon)) = []
   \<and> List.map_filter postMedia
        (fst (processRecord everyUploadFails exampleConfig imageOnly freshDaemon)) = []"
proof -
  have n: "length (mediaPaths (processMessage exampleConfig (homedir secondUploadFails)
             threeImages)) = 3"
    by code_simp
  have x: "pm_text (processMessage exampleConfig (homedir secondUploadFails) threeImages) \<noteq> []"
    by code_simp
  have r: "readyPaths (fst (processRecord secondUploadFails exampleConfig threeImages freshDaemon))
             = [ascii ''/a.jpg'', ascii ''/Users/me/b.PNG'', ascii ''/c.gif'']"
    by code_simp
  have u: "uploadedIds (fst (processRecord secondUploadFails exampleConfig threeImages freshDaemon))
             = [ascii ''/a.jpg'', ascii ''/c.gif'']"
    by code_simp
  have r2: "readyPaths (fst (processRecord firstConversionFails exampleConfig threeImages
              freshDaemon)) = [ascii ''/Users/me/b.PNG'', ascii ''/c.gif'']"
    by code_simp
  have u2: "uploadedIds (fst (processRecord firstConversionFails exampleConfig threeImages
              freshDaemon)) = [ascii ''/Users/me/b.PNG'', ascii ''/c.gif'']"
    by code_simp
  have x3: "pm_text (processMessage exampleConfig (homedir everyUploadFails) oneImage) \<noteq> []"
    by code_simp
  have u3: "uploadedIds (fst (processRecord everyUploadFails exampleConfig oneImage freshDaemon)) = []"
    by code_simp
  have y: "pm_text (processMessage exampleConfig (homedir everyUploadFails) imageOnly) = []"
    by code_simp
  have v: "uploadedIds (fst (processRecord everyUploadFails exampleConfig imageOnly freshDaemon)) = []"
    by code_simp
  show ?thesis
    using n x r u r2 u2 x3 u3 y v
      failed_upload_only_shrinks_media
        [of secondUploadFails exampleConfig threeImages freshDaemon]
      failed_upload_only_shrinks_media
        [of firstConversionFails exampleConfig threeImages freshDaemon]
      failed_upload_only_shrinks_media
        [of everyUploadFails exampleConfig oneImage freshDaemon]
      failed_upload_only_shrinks_media
        [of everyUploadFails exampleConfig imageOnly freshDaemon]
    by simp
qed

text \<open>The whole trace of the third run.\<close>

lemma text_is_posted_when_every_upload_fails:
  "fst (processRecord everyUploadFails exampleConfig oneImage freshDaemon)
     = [EvConvert (ascii ''8'') (ascii ''/a.jpg'') (Inr (ascii ''/a.jpg'')),
        EvUpload (ascii ''8'') (ascii ''/a.jpg'') (Inl (Error (ascii ''Media upload failed''))),
        EvPost (ascii ''8'') (ascii ''hi'') None (Inr (ascii ''tweet'')),
        EvMarkProcessed (ascii ''8'')]"
  by code_simp

end
